theory Spec2Isabelle
  imports Main "HOL-Library.Countable"
begin

section \<open>JavaScript values used by the handlers\<close>

text \<open>
  A JavaScript number is \<open>NaN\<close>, an infinity or a finite value. The finite values are
  kept exact: they are integers where the handlers compute with milliseconds and with
  the results of \<open>parseInt\<close>, and rationals where \<open>ToNumber\<close> of a text can give a
  fraction. The rounding of doubles (beyond \<open>2^53\<close>, and of decimal fractions) and
  their overflow to an infinity are not represented.
\<close>

datatype 'a jsnum = NaN | Fin 'a | PosInf | NegInf

text \<open>
  A value of the JSON request body (\<open>JUndefined\<close>: the key is absent). Numbers in the body
  are whole; arrays and objects are left out. Text is a list of bytes, the UTF-8 form
  of the JavaScript string.
\<close>

datatype jsvalue = JUndefined | JNull | JBool bool | JNumber int | JString string

text \<open>\<open>v ? a : b\<close> and \<open>a || b\<close> test truthiness.\<close>

fun truthy :: "jsvalue \<Rightarrow> bool" where
  "truthy JUndefined = False"
| "truthy JNull = False"
| "truthy (JBool b) = b"
| "truthy (JNumber n) = (n \<noteq> 0)"
| "truthy (JString s) = (s \<noteq> [])"

fun numTruthy :: "'a::zero jsnum \<Rightarrow> bool" where
  "numTruthy NaN = False"
| "numTruthy (Fin n) = (n \<noteq> 0)"
| "numTruthy PosInf = True"
| "numTruthy NegInf = True"

text \<open>\<open>a || b\<close> on numbers.\<close>

definition jsOr :: "'a::zero jsnum \<Rightarrow> 'a jsnum \<Rightarrow> 'a jsnum" where
  "jsOr a b = (if numTruthy a then a else b)"

text \<open>\<open>a + b\<close>, \<open>a - b\<close>, \<open>a > b\<close>, \<open>a <= b\<close> on numbers: \<open>NaN\<close> propagates through
  arithmetic and makes every comparison false.\<close>

fun jsAdd :: "'a::plus jsnum \<Rightarrow> 'a jsnum \<Rightarrow> 'a jsnum" where
  "jsAdd (Fin a) (Fin b) = Fin (a + b)"
| "jsAdd NaN _ = NaN"
| "jsAdd _ NaN = NaN"
| "jsAdd PosInf NegInf = NaN"
| "jsAdd NegInf PosInf = NaN"
| "jsAdd PosInf _ = PosInf"
| "jsAdd _ PosInf = PosInf"
| "jsAdd NegInf _ = NegInf"
| "jsAdd _ NegInf = NegInf"

fun jsSub :: "'a::minus jsnum \<Rightarrow> 'a jsnum \<Rightarrow> 'a jsnum" where
  "jsSub (Fin a) (Fin b) = Fin (a - b)"
| "jsSub NaN _ = NaN"
| "jsSub _ NaN = NaN"
| "jsSub PosInf PosInf = NaN"
| "jsSub NegInf NegInf = NaN"
| "jsSub PosInf _ = PosInf"
| "jsSub _ PosInf = NegInf"
| "jsSub NegInf _ = NegInf"
| "jsSub _ NegInf = PosInf"

fun jsGt :: "'a::ord jsnum \<Rightarrow> 'a jsnum \<Rightarrow> bool" where
  "jsGt (Fin a) (Fin b) = (a > b)"
| "jsGt PosInf (Fin _) = True"
| "jsGt PosInf NegInf = True"
| "jsGt (Fin _) NegInf = True"
| "jsGt _ _ = False"

fun jsLe :: "'a::ord jsnum \<Rightarrow> 'a jsnum \<Rightarrow> bool" where
  "jsLe (Fin a) (Fin b) = (a \<le> b)"
| "jsLe NaN _ = False"
| "jsLe _ NaN = False"
| "jsLe NegInf _ = True"
| "jsLe _ PosInf = True"
| "jsLe _ _ = False"

subsection \<open>Number to text\<close>

definition digitChar :: "nat \<Rightarrow> char" where
  "digitChar d = ''0123456789'' ! (d mod 10)"

fun showNat :: "nat \<Rightarrow> string" where
  "showNat n = (if n < 10 then [digitChar n] else showNat (n div 10) @ [digitChar (n mod 10)])"

declare showNat.simps [simp del]

definition showInt :: "int \<Rightarrow> string" where
  "showInt i = (if i < 0 then CHR ''-'' # showNat (nat (- i)) else showNat (nat i))"

text \<open>
  From \<open>10^21\<close> on a number is written with an exponent: the first digit, then a point
  and the remaining digits up to the last one that is not zero, then \<open>e+\<close> and the
  number of digits after the first.
\<close>

definition showExp :: "nat \<Rightarrow> string" where
  "showExp n =
     (let ds = showNat n;
          sig = rev (dropWhile (\<lambda>c. c = CHR ''0'') (rev ds))
      in (case sig of
            [] \<Rightarrow> []
          | d # more \<Rightarrow> d # (if more = [] then [] else CHR ''.'' # more))
         @ ''e+'' @ showNat (length ds - 1))"

definition numberToString :: "int \<Rightarrow> string" where
  "numberToString i =
     (if \<bar>i\<bar> < 1000000000000000000000 then showInt i
      else (if i < 0 then ''-'' else []) @ showExp (nat \<bar>i\<bar>))"

text \<open>\<open>Number.prototype.toString()\<close>.\<close>

fun numToString :: "int jsnum \<Rightarrow> string" where
  "numToString NaN = ''NaN''"
| "numToString (Fin n) = numberToString n"
| "numToString PosInf = ''Infinity''"
| "numToString NegInf = ''-Infinity''"

text \<open>The text that \<open>parseInt\<close> sees for a value (\<open>ToString\<close>).\<close>

fun toStringV :: "jsvalue \<Rightarrow> string" where
  "toStringV JUndefined = ''undefined''"
| "toStringV JNull = ''null''"
| "toStringV (JBool b) = (if b then ''true'' else ''false'')"
| "toStringV (JNumber n) = numberToString n"
| "toStringV (JString s) = s"

subsection \<open>White space\<close>

text \<open>
  The white space and line terminators that \<open>parseInt\<close> and \<open>ToNumber\<close> skip, each as its
  UTF-8 bytes: U+0009 to U+000D, U+0020, U+00A0, U+1680, U+2000 to U+200A, U+2028,
  U+2029, U+202F, U+205F, U+3000 and U+FEFF.
\<close>

definition whiteCodes :: "nat list list" where
  "whiteCodes =
     [[9], [10], [11], [12], [13], [32], [194, 160], [225, 154, 128],
      [226, 128, 128], [226, 128, 129], [226, 128, 130], [226, 128, 131], [226, 128, 132],
      [226, 128, 133], [226, 128, 134], [226, 128, 135], [226, 128, 136], [226, 128, 137],
      [226, 128, 138], [226, 128, 168], [226, 128, 169], [226, 128, 175], [226, 129, 159],
      [227, 128, 128], [239, 187, 191]]"

definition startsWith :: "nat list \<Rightarrow> string \<Rightarrow> bool" where
  "startsWith code s = (take (length code) (map of_char s) = code)"

text \<open>The number of bytes of the code at the head of the text, 0 when none of the codes
  is there.\<close>

definition codeLen :: "nat list list \<Rightarrow> string \<Rightarrow> nat" where
  "codeLen codes s =
     (case find (\<lambda>code. startsWith code s) codes of None \<Rightarrow> 0 | Some code \<Rightarrow> length code)"

function skipCodes :: "nat list list \<Rightarrow> string \<Rightarrow> string" where
  "skipCodes codes s = (if codeLen codes s = 0 then s else skipCodes codes (drop (codeLen codes s) s))"
  by pat_completeness auto
termination
proof (relation "measure (\<lambda>(codes, s). length s)")
  show "wf (measure (\<lambda>(codes, s). length s))" by simp
next
  fix codes :: "nat list list" and s :: string
  assume n: "codeLen codes s \<noteq> 0"
  then obtain code where "startsWith code s" and "code \<noteq> []"
    by (auto simp: codeLen_def split: option.splits simp: find_Some_iff)
  then have "s \<noteq> []" by (auto simp: startsWith_def)
  then show "((codes, drop (codeLen codes s) s), (codes, s)) \<in> measure (\<lambda>(codes, s). length s)"
    using n by simp
qed

declare skipCodes.simps [simp del]

definition skipWhite :: "string \<Rightarrow> string" where
  "skipWhite s = skipCodes whiteCodes s"

text \<open>White space removed at both ends; at the end the bytes are matched backwards.\<close>

definition trimWhite :: "string \<Rightarrow> string" where
  "trimWhite s = rev (skipCodes (map rev whiteCodes) (rev (skipWhite s)))"

subsection \<open>\<open>parseInt\<close>\<close>

text \<open>
  \<open>parseInt(s)\<close> with no radix: skip leading white space, read an optional sign, switch
  to radix 16 after \<open>0x\<close> or \<open>0X\<close>, read the longest run of digits; \<open>NaN\<close> when that run
  is empty.
\<close>

definition digitValue :: "char \<Rightarrow> nat option" where
  "digitValue c =
     (let n = (of_char c :: nat) in
      if 48 \<le> n \<and> n \<le> 57 then Some (n - 48)
      else if 97 \<le> n \<and> n \<le> 102 then Some (n - 87)
      else if 65 \<le> n \<and> n \<le> 70 then Some (n - 55)
      else None)"

definition isDigitR :: "nat \<Rightarrow> char \<Rightarrow> bool" where
  "isDigitR R c = (case digitValue c of None \<Rightarrow> False | Some d \<Rightarrow> d < R)"

definition digitsValue :: "nat \<Rightarrow> string \<Rightarrow> nat" where
  "digitsValue R ds = foldl (\<lambda>a c. a * R + (case digitValue c of None \<Rightarrow> 0 | Some d \<Rightarrow> d)) 0 ds"

definition stripSign :: "string \<Rightarrow> bool \<times> string" where
  "stripSign s =
     (case s of
        [] \<Rightarrow> (False, [])
      | c # cs \<Rightarrow> if c = CHR ''-'' then (True, cs)
                  else if c = CHR ''+'' then (False, cs)
                  else (False, s))"

definition stripHexPrefix :: "string \<Rightarrow> nat \<times> string" where
  "stripHexPrefix s =
     (case s of
        a # b # cs \<Rightarrow> if a = CHR ''0'' \<and> (b = CHR ''x'' \<or> b = CHR ''X'') then (16, cs) else (10, s)
      | _ \<Rightarrow> (10, s))"

definition parseIntStr :: "string \<Rightarrow> int jsnum" where
  "parseIntStr s =
     (let (neg, s2) = stripSign (skipWhite s);
          (R, s3) = stripHexPrefix s2;
          ds = takeWhile (isDigitR R) s3
      in if ds = [] then NaN
         else Fin ((if neg then - 1 else 1) * int (digitsValue R ds)))"

definition parseInt :: "jsvalue \<Rightarrow> int jsnum" where
  "parseInt v = parseIntStr (toStringV v)"

text \<open>\<open>parseInt(record.expiry)\<close> on a stored field that may be absent (\<open>undefined\<close>).\<close>

definition parseIntField :: "string option \<Rightarrow> int jsnum" where
  "parseIntField f = (case f of None \<Rightarrow> parseInt JUndefined | Some s \<Rightarrow> parseInt (JString s))"

section \<open>The record store\<close>

text \<open>
  A row of the collection \<open>urls\<close>. \<open>rid\<close> is the row's \<open>id\<close>. \<open>created\<close> is the
  timestamp as milliseconds since the epoch, which is what \<open>new Date(record.created).getTime()\<close>
  reads and \<open>now.toISOString()\<close> writes back. \<open>expiry\<close> is the stored text; \<open>None\<close>
  when the row has no such field.
\<close>

record urlRecord =
  rid :: nat
  originalUrl :: string
  shortCode :: string
  created :: int
  expiry :: "string option"

text \<open>
  The state a request runs in: the rows in the order the store lists them, the next
  free row id, and the number of calls made to \<open>nanoid\<close> so far. The results of
  \<open>nanoid(6)\<close> are given by a function \<open>g\<close> from the number of the call to the code it
  returned, passed to every handler.
\<close>

record world =
  records :: "urlRecord list"
  nextId :: nat
  draws :: nat

definition nanoid :: "(nat \<Rightarrow> string) \<Rightarrow> world \<Rightarrow> string \<times> world" where
  "nanoid g w = (g (draws w), w\<lparr>draws := Suc (draws w)\<rparr>)"

text \<open>The fields an \<open>update\<close> call sends; \<open>None\<close> for a field it does not send.\<close>

record patch =
  p_shortCode :: "string option"
  p_created :: "int option"
  p_expiry :: "string option"

definition applyPatch :: "patch \<Rightarrow> urlRecord \<Rightarrow> urlRecord" where
  "applyPatch p r =
     r\<lparr>shortCode := (case p_shortCode p of None \<Rightarrow> shortCode r | Some c \<Rightarrow> c),
       created := (case p_created p of None \<Rightarrow> created r | Some t \<Rightarrow> t),
       expiry := (case p_expiry p of None \<Rightarrow> expiry r | Some e \<Rightarrow> Some e)\<rparr>"

text \<open>
  Modelled from the spec: the store client (PocketBase, an external library) is not part
  of the sources. Its contract is taken from the interface section of the specification:
  \<open>list(filter)\<close> returns the rows that satisfy the filter, \<open>create(fields)\<close> assigns the
  id and the creation time and returns the stored row, \<open>update(id, fields)\<close> is a partial
  update that keeps the fields it is not given and returns the stored row. An update of
  an id that the store does not hold fails. The store stamps a new row with the instant
  of the request.
\<close>

definition getFullList :: "(urlRecord \<Rightarrow> bool) \<Rightarrow> world \<Rightarrow> urlRecord list" where
  "getFullList flt w = filter flt (records w)"

definition pbCreate :: "int \<Rightarrow> string \<Rightarrow> string \<Rightarrow> string option \<Rightarrow> world \<Rightarrow> urlRecord \<times> world" where
  "pbCreate now url code ex w =
     (let r = \<lparr>rid = nextId w, originalUrl = url, shortCode = code, created = now, expiry = ex\<rparr>
      in (r, w\<lparr>records := records w @ [r], nextId := Suc (nextId w)\<rparr>))"

definition pbUpdate :: "nat \<Rightarrow> patch \<Rightarrow> world \<Rightarrow> (urlRecord \<times> world) option" where
  "pbUpdate i p w =
     (case find (\<lambda>r. rid r = i) (records w) of
        None \<Rightarrow> None
      | Some r \<Rightarrow>
          Some (applyPatch p r,
                w\<lparr>records := map (\<lambda>x. if rid x = i then applyPatch p x else x) (records w)\<rparr>))"

text \<open>Row ids are a key of the collection, and every id in use is below the next free one.\<close>

definition wfStore :: "world \<Rightarrow> bool" where
  "wfStore w = (distinct (map rid (records w)) \<and> list_all (\<lambda>r. rid r < nextId w) (records w))"

section \<open>The handlers of the revised edition (\<open>src/unnamed/part_000\<close>)\<close>

text \<open>
  A handler answers with status 400 when a required field is missing and with status 500
  when a call to the store throws. Of the store's failures only the update of an unknown
  id is modelled; the connection to the store does not fail.
\<close>

datatype error = BadRequest | InternalServerError

definition DEFAULT_TIME_LIMIT :: int where
  "DEFAULT_TIME_LIMIT = 3600000"

subsection \<open>\<open>POST /shorten\<close>\<close>

record response =
  res_shortCode :: string
  res_message :: string

definition msgExpired :: string where
  "msgExpired = ''Existing URL expired; updated with new short code.''"

definition msgActive :: string where
  "msgActive = ''Existing URL is still active; expiry and created updated, returning same short code.''"

definition msgCreated :: string where
  "msgCreated = ''New URL record created.''"

text \<open>\<open>expiry ? parseInt(expiry) : DEFAULT_TIME_LIMIT\<close>, in both \<open>/shorten\<close> and \<open>/urls/batch\<close>.\<close>

definition effectiveExpiryOf :: "jsvalue \<Rightarrow> int jsnum" where
  "effectiveExpiryOf ex = (if truthy ex then parseInt ex else Fin DEFAULT_TIME_LIMIT)"

text \<open>\<open>now.getTime() > createdTime.getTime() + effectiveExpiry\<close>.\<close>

definition shortenExpired :: "int \<Rightarrow> int jsnum \<Rightarrow> urlRecord \<Rightarrow> bool" where
  "shortenExpired now effectiveExpiry record =
     (let expiryTime = jsAdd (Fin (created record)) effectiveExpiry
      in jsGt (Fin now) expiryTime)"

definition shorten ::
  "(nat \<Rightarrow> string) \<Rightarrow> int \<Rightarrow> string option \<Rightarrow> jsvalue \<Rightarrow> world \<Rightarrow> error + (response \<times> world)" where
  "shorten g now link ex w =
     (case link of
        None \<Rightarrow> Inl BadRequest
      | Some l \<Rightarrow>
          if l = [] then Inl BadRequest
          else
            let effectiveExpiry = effectiveExpiryOf ex;
                existingRecords = getFullList (\<lambda>r. originalUrl r = l) w
            in (case existingRecords of
                  record # _ \<Rightarrow>
                    if shortenExpired now effectiveExpiry record then
                      (let (newShortCode, w1) = nanoid g w in
                       case pbUpdate (rid record)
                              \<lparr>p_shortCode = Some newShortCode, p_created = None,
                               p_expiry = Some (numToString effectiveExpiry)\<rparr> w1 of
                         None \<Rightarrow> Inl InternalServerError
                       | Some (updatedRecord, w2) \<Rightarrow>
                           Inr (\<lparr>res_shortCode = shortCode updatedRecord, res_message = msgExpired\<rparr>, w2))
                    else
                      (case pbUpdate (rid record)
                              \<lparr>p_shortCode = None, p_created = Some now,
                               p_expiry = Some (numToString effectiveExpiry)\<rparr> w of
                         None \<Rightarrow> Inl InternalServerError
                       | Some (updatedRecord, w2) \<Rightarrow>
                           Inr (\<lparr>res_shortCode = shortCode updatedRecord, res_message = msgActive\<rparr>, w2))
                | [] \<Rightarrow>
                    (let (shortCode', w1) = nanoid g w;
                         (newRecord, w2) = pbCreate now l shortCode' (Some (numToString effectiveExpiry)) w1
                     in Inr (\<lparr>res_shortCode = shortCode newRecord, res_message = msgCreated\<rparr>, w2))))"

subsection \<open>\<open>GET /stats/active\<close>\<close>

text \<open>\<open>parseInt(record.expiry) || DEFAULT_TIME_LIMIT\<close>, in \<open>/stats/active\<close> and \<open>/urls/batch\<close>.\<close>

definition expiryDuration :: "urlRecord \<Rightarrow> int jsnum" where
  "expiryDuration record = jsOr (parseIntField (expiry record)) (Fin DEFAULT_TIME_LIMIT)"

text \<open>The filter of \<open>/stats/active\<close>: \<open>createdTime.getTime() + expiryDuration > now.getTime()\<close>.\<close>

definition isActive :: "int \<Rightarrow> urlRecord \<Rightarrow> bool" where
  "isActive now record = jsGt (jsAdd (Fin (created record)) (expiryDuration record)) (Fin now)"

text \<open>
  \<open>new Date(record.created).toISOString().split('T')[0]\<close>: the UTC calendar date of a
  timestamp, as text. The day number since the epoch is turned into year, month and day
  of the proleptic Gregorian calendar; years outside 0 to 9999 are written with a sign
  and six digits. Stored timestamps are valid dates.
\<close>

definition civilDate :: "int \<Rightarrow> int \<Rightarrow> int \<Rightarrow> int \<times> int \<times> int" where
  "civilDate y m d = (if m \<le> 2 then y + 1 else y, m, d)"

definition civilMonth :: "int \<Rightarrow> int \<Rightarrow> int \<Rightarrow> int \<times> int \<times> int" where
  "civilMonth y doy mp =
     civilDate y (if mp < 10 then mp + 3 else mp - 9) (doy - (153 * mp + 2) div 5 + 1)"

definition civilDay :: "int \<Rightarrow> int \<Rightarrow> int \<times> int \<times> int" where
  "civilDay y doy = civilMonth y doy ((5 * doy + 2) div 153)"

definition civilYear :: "int \<Rightarrow> int \<Rightarrow> int \<Rightarrow> int \<times> int \<times> int" where
  "civilYear era doe yoe =
     civilDay (yoe + era * 400) (doe - (365 * yoe + yoe div 4 - yoe div 100))"

definition civilEra :: "int \<Rightarrow> int \<Rightarrow> int \<times> int \<times> int" where
  "civilEra era doe =
     civilYear era doe ((doe - doe div 1460 + doe div 36524 - doe div 146096) div 365)"

text \<open>Day number since 1970-01-01 to (year, month, day): the days are counted from
  0000-03-01 in eras of 400 years (146097 days), months from March.\<close>

definition civilFromDays :: "int \<Rightarrow> int \<times> int \<times> int" where
  "civilFromDays days = civilEra ((days + 719468) div 146097) ((days + 719468) mod 146097)"

definition padLeft :: "nat \<Rightarrow> string \<Rightarrow> string" where
  "padLeft n s = replicate (n - length s) (CHR ''0'') @ s"

definition yearString :: "int \<Rightarrow> string" where
  "yearString y =
     (if 0 \<le> y \<and> y \<le> 9999 then padLeft 4 (showNat (nat y))
      else (if y < 0 then ''-'' else ''+'') @ padLeft 6 (showNat (nat \<bar>y\<bar>)))"

definition isoDate :: "int \<Rightarrow> string" where
  "isoDate ms =
     (let (y, m, d) = civilFromDays (ms div 86400000)
      in yearString y @ ''-'' @ padLeft 2 (showNat (nat m)) @ ''-'' @ padLeft 2 (showNat (nat d)))"

text \<open>
  \<open>groupByDate[date] = (groupByDate[date] || 0) + 1\<close> on an object whose keys are date
  texts: the keys keep the order in which they were first written, which is the order
  \<open>Object.keys\<close> lists them in.
\<close>

fun bump :: "string \<Rightarrow> (string \<times> nat) list \<Rightarrow> (string \<times> nat) list" where
  "bump d [] = [(d, 1)]"
| "bump d ((k, c) # kcs) = (if k = d then (k, c + 1) # kcs else (k, c) # bump d kcs)"

definition groupByDate :: "urlRecord list \<Rightarrow> (string \<times> nat) list" where
  "groupByDate rs = foldl (\<lambda>acc record. bump (isoDate (created record)) acc) [] rs"

record statsReport =
  total :: nat
  groups :: "(string \<times> nat) list"
  activeRecords :: "urlRecord list"

definition statsActive :: "int \<Rightarrow> world \<Rightarrow> statsReport" where
  "statsActive now w =
     (let recs = getFullList (\<lambda>_. True) w;
          active = filter (isActive now) recs
      in \<lparr>total = length active, groups = groupByDate active, activeRecords = active\<rparr>)"

subsection \<open>\<open>POST /urls/batch\<close>\<close>

record batchEntry =
  b_link :: string
  b_shortCode :: string
  b_action :: string

text \<open>
  \<open>existingMap\<close> is a plain object (\<open>{}\<close>), so \<open>existingMap[key]\<close> finds, besides the rows
  the handler has stored in it, the members that every object inherits from
  \<open>Object.prototype\<close>. These are functions (and \<open>Object.prototype\<close> itself under
  \<open>__proto__\<close>): truthy values without \<open>created\<close>, \<open>expiry\<close> or \<open>id\<close>.
\<close>

definition inheritedNames :: "string list" where
  "inheritedNames =
     [''constructor'', ''__defineGetter__'', ''__defineSetter__'', ''hasOwnProperty'',
      ''__lookupGetter__'', ''__lookupSetter__'', ''isPrototypeOf'', ''propertyIsEnumerable'',
      ''toString'', ''valueOf'', ''__proto__'', ''toLocaleString'']"

definition inheritedName :: "string \<Rightarrow> bool" where
  "inheritedName l = (l \<in> set inheritedNames)"

datatype slot = Missing | Own urlRecord | Inherited

text \<open>\<open>existingMap[key]\<close>, where \<open>m\<close> holds the rows stored in the object.\<close>

definition lookupExisting :: "(string \<rightharpoonup> urlRecord) \<Rightarrow> string \<Rightarrow> slot" where
  "lookupExisting m key =
     (case m key of
        Some r \<Rightarrow> Own r
      | None \<Rightarrow> if inheritedName key then Inherited else Missing)"

text \<open>
  The map from \<open>originalUrl\<close> to the most recently created row among those listed; of
  rows created at the same instant the one listed first stays. For a row whose URL is
  an inherited name, \<open>!existingMap[url]\<close> is false and the comparison of its date with
  \<open>new Date(undefined)\<close> is false as well, so the row is not stored.
\<close>

definition existingMapOf :: "urlRecord list \<Rightarrow> (string \<rightharpoonup> urlRecord)" where
  "existingMapOf rs =
     foldl (\<lambda>m record.
              let url = originalUrl record in
              (case lookupExisting m url of
                 Missing \<Rightarrow> m(url \<mapsto> record)
               | Own cur \<Rightarrow> if created record > created cur then m(url \<mapsto> record) else m
               | Inherited \<Rightarrow> m))
           Map.empty rs"

text \<open>\<open>now.getTime() > createdTime.getTime() + expiryDuration\<close>, the test of the batch loop.\<close>

definition batchExpired :: "int \<Rightarrow> urlRecord \<Rightarrow> bool" where
  "batchExpired now record =
     (let expiryTime = jsAdd (Fin (created record)) (expiryDuration record)
      in jsGt (Fin now) expiryTime)"

text \<open>
  One round of the loop \<open>for (const link of links)\<close>. When \<open>existingMap[link]\<close> is an
  inherited member, \<open>record.created\<close> is \<open>undefined\<close>, the expiry time is \<open>NaN\<close>, the test
  \<open>now.getTime() > expiryTime\<close> is false, and the handler calls \<open>update\<close> with
  \<open>record.id\<close>, which is \<open>undefined\<close>: the store holds no such row, the call throws and
  the request ends with status 500.
\<close>

definition batchStep ::
  "(nat \<Rightarrow> string) \<Rightarrow> (string \<rightharpoonup> urlRecord) \<Rightarrow> int \<Rightarrow> int jsnum \<Rightarrow> string \<Rightarrow> world
     \<Rightarrow> error + (batchEntry \<times> world)" where
  "batchStep g existingMap now effectiveExpiry l w =
     (case lookupExisting existingMap l of
        Own record \<Rightarrow>
          if batchExpired now record then
            (let (newShortCode, w1) = nanoid g w in
             case pbUpdate (rid record)
                    \<lparr>p_shortCode = Some newShortCode, p_created = None,
                     p_expiry = Some (numToString effectiveExpiry)\<rparr> w1 of
               None \<Rightarrow> Inl InternalServerError
             | Some (updatedRecord, w2) \<Rightarrow>
                 Inr (\<lparr>b_link = l, b_shortCode = shortCode updatedRecord, b_action = ''updated''\<rparr>, w2))
          else
            (case pbUpdate (rid record)
                    \<lparr>p_shortCode = None, p_created = Some now,
                     p_expiry = Some (numToString effectiveExpiry)\<rparr> w of
               None \<Rightarrow> Inl InternalServerError
             | Some (updatedRecord, w2) \<Rightarrow>
                 Inr (\<lparr>b_link = l, b_shortCode = shortCode updatedRecord, b_action = ''updated''\<rparr>, w2))
      | Inherited \<Rightarrow> Inl InternalServerError
      | Missing \<Rightarrow>
          (let (shortCode', w1) = nanoid g w;
               (newRecord, w2) = pbCreate now l shortCode' (Some (numToString effectiveExpiry)) w1
           in Inr (\<lparr>b_link = l, b_shortCode = shortCode newRecord, b_action = ''created''\<rparr>, w2)))"

fun batchLoop ::
  "(nat \<Rightarrow> string) \<Rightarrow> (string \<rightharpoonup> urlRecord) \<Rightarrow> int \<Rightarrow> int jsnum \<Rightarrow> string list \<Rightarrow> world
     \<Rightarrow> error + (batchEntry list \<times> world)" where
  "batchLoop g existingMap now effectiveExpiry [] w = Inr ([], w)"
| "batchLoop g existingMap now effectiveExpiry (l # ls) w =
     (case batchStep g existingMap now effectiveExpiry l w of
        Inl e \<Rightarrow> Inl e
      | Inr (entry, w1) \<Rightarrow>
          (case batchLoop g existingMap now effectiveExpiry ls w1 of
             Inl e \<Rightarrow> Inl e
           | Inr (results, w2) \<Rightarrow> Inr (entry # results, w2)))"

text \<open>The rows the batch handler lists before the loop, and the map it builds from them.\<close>

definition batchExisting :: "string list \<Rightarrow> world \<Rightarrow> urlRecord list" where
  "batchExisting ls w =
     (if length ls > 0 then getFullList (\<lambda>r. originalUrl r \<in> set ls) w else [])"

definition urlsBatch ::
  "(nat \<Rightarrow> string) \<Rightarrow> int \<Rightarrow> string list option \<Rightarrow> jsvalue \<Rightarrow> world
     \<Rightarrow> error + (batchEntry list \<times> world)" where
  "urlsBatch g now links ex w =
     (case links of
        None \<Rightarrow> Inl BadRequest
      | Some ls \<Rightarrow>
          let existingMap = existingMapOf (batchExisting ls w);
              effectiveExpiry = effectiveExpiryOf ex
          in batchLoop g existingMap now effectiveExpiry ls w)"

section \<open>The handlers of the earlier edition (\<open>src/index.js\<close>)\<close>

text \<open>
  In this edition \<open>DEFAULT_TIME_LIMIT\<close> is a variable (\<open>let\<close>), so it is part of the
  state that one request hands to the next. Rows are created without an \<open>expiry\<close> field.
\<close>

record edition0 =
  timeLimit :: "rat jsnum"
  store :: world

definition initial0 :: "world \<Rightarrow> edition0" where
  "initial0 w = \<lparr>timeLimit = Fin 3600000, store = w\<rparr>"

text \<open>
  \<open>expiry - now\<close> converts \<open>expiry\<close> with \<open>ToNumber\<close> and the date with \<open>getTime()\<close>.
  On text, \<open>ToNumber\<close> trims white space on both sides and reads the empty text as 0,
  an unsigned run of digits after \<open>0x\<close>, \<open>0o\<close> or \<open>0b\<close>, or a signed decimal literal:
  \<open>Infinity\<close>, or digits with an optional point and an optional exponent, at least one
  digit before or after the point. Any other text is \<open>NaN\<close>.
\<close>

definition allDigits :: "nat \<Rightarrow> string \<Rightarrow> bool" where
  "allDigits R ds = (ds \<noteq> [] \<and> list_all (isDigitR R) ds)"

definition radixOfPrefix :: "char \<Rightarrow> nat option" where
  "radixOfPrefix c =
     (if c = CHR ''x'' \<or> c = CHR ''X'' then Some 16
      else if c = CHR ''o'' \<or> c = CHR ''O'' then Some 8
      else if c = CHR ''b'' \<or> c = CHR ''B'' then Some 2
      else None)"

definition prefixed :: "string \<Rightarrow> (nat \<times> string) option" where
  "prefixed t =
     (case t of
        a # b # cs \<Rightarrow>
          if a = CHR ''0'' then (case radixOfPrefix b of None \<Rightarrow> None | Some R \<Rightarrow> Some (R, cs))
          else None
      | _ \<Rightarrow> None)"

text \<open>The exponent part: nothing, or \<open>e\<close> or \<open>E\<close>, an optional sign and digits.\<close>

definition parseExponent :: "string \<Rightarrow> int option" where
  "parseExponent s =
     (case s of
        [] \<Rightarrow> Some 0
      | c # cs \<Rightarrow>
          if c = CHR ''e'' \<or> c = CHR ''E'' then
            (let (neg, ds) = stripSign cs
             in if allDigits 10 ds then Some ((if neg then - 1 else 1) * int (digitsValue 10 ds))
                else None)
          else None)"

definition scale10 :: "rat \<Rightarrow> int \<Rightarrow> rat" where
  "scale10 q e = (if 0 \<le> e then q * 10 ^ nat e else q / 10 ^ nat (- e))"

definition parseUnsignedDecimal :: "string \<Rightarrow> rat jsnum" where
  "parseUnsignedDecimal s =
     (if s = ''Infinity'' then PosInf
      else
        let ip = takeWhile (isDigitR 10) s;
            r1 = dropWhile (isDigitR 10) s;
            (fp, r2) = (case r1 of
                          [] \<Rightarrow> ([], [])
                        | c # t \<Rightarrow> if c = CHR ''.''
                                   then (takeWhile (isDigitR 10) t, dropWhile (isDigitR 10) t)
                                   else ([], r1))
        in if ip = [] \<and> fp = [] then NaN
           else (case parseExponent r2 of
                   None \<Rightarrow> NaN
                 | Some e \<Rightarrow>
                     Fin (scale10 (of_nat (digitsValue 10 (ip @ fp)) / 10 ^ length fp) e)))"

fun jsNeg :: "rat jsnum \<Rightarrow> rat jsnum" where
  "jsNeg NaN = NaN"
| "jsNeg (Fin q) = Fin (- q)"
| "jsNeg PosInf = NegInf"
| "jsNeg NegInf = PosInf"

definition strToNumber :: "string \<Rightarrow> rat jsnum" where
  "strToNumber s =
     (let t = trimWhite s in
      if t = [] then Fin 0
      else (case prefixed t of
              Some (R, ds) \<Rightarrow> if allDigits R ds then Fin (of_nat (digitsValue R ds)) else NaN
            | None \<Rightarrow>
                (let (neg, u) = stripSign t;
                     v = parseUnsignedDecimal u
                 in if neg then jsNeg v else v)))"

fun toNumber :: "jsvalue \<Rightarrow> rat jsnum" where
  "toNumber JUndefined = NaN"
| "toNumber JNull = Fin 0"
| "toNumber (JBool b) = Fin (if b then 1 else 0)"
| "toNumber (JNumber n) = Fin (of_int n)"
| "toNumber (JString s) = strToNumber s"

text \<open>\<open>if (expiry) { DEFAULT_TIME_LIMIT = expiry - now; }\<close>\<close>

definition assignLimit :: "int \<Rightarrow> jsvalue \<Rightarrow> rat jsnum \<Rightarrow> rat jsnum" where
  "assignLimit now ex lim = (if truthy ex then jsSub (toNumber ex) (Fin (of_int now)) else lim)"

definition msgOlder0 :: string where
  "msgOlder0 = ''Existing URL was older than 1 hour; updated with new short code.''"

definition msgWithin0 :: string where
  "msgWithin0 = ''Existing URL is within 1 hour; new URL record created.''"

text \<open>\<open>now - createdTime > DEFAULT_TIME_LIMIT\<close>\<close>

definition older0 :: "int \<Rightarrow> rat jsnum \<Rightarrow> urlRecord \<Rightarrow> bool" where
  "older0 now lim record = (let timeDiff = now - created record in jsGt (Fin (of_int timeDiff)) lim)"

definition shorten_index ::
  "(nat \<Rightarrow> string) \<Rightarrow> int \<Rightarrow> string option \<Rightarrow> jsvalue \<Rightarrow> edition0
     \<Rightarrow> error + (response \<times> edition0)" where
  "shorten_index g now link ex st =
     (case link of
        None \<Rightarrow> Inl BadRequest
      | Some l \<Rightarrow>
          if l = [] then Inl BadRequest
          else
            let lim = assignLimit now ex (timeLimit st);
                w = store st;
                existingRecords = getFullList (\<lambda>r. originalUrl r = l) w
            in (case existingRecords of
                  record # _ \<Rightarrow>
                    if older0 now lim record then
                      (let (newShortCode, w1) = nanoid g w in
                       case pbUpdate (rid record)
                              \<lparr>p_shortCode = Some newShortCode, p_created = None, p_expiry = None\<rparr> w1 of
                         None \<Rightarrow> Inl InternalServerError
                       | Some (updatedRecord, w2) \<Rightarrow>
                           Inr (\<lparr>res_shortCode = newShortCode, res_message = msgOlder0\<rparr>,
                                \<lparr>timeLimit = lim, store = w2\<rparr>))
                    else
                      (let (shortCode', w1) = nanoid g w;
                           (newRecord, w2) = pbCreate now l shortCode' None w1
                       in Inr (\<lparr>res_shortCode = shortCode newRecord, res_message = msgWithin0\<rparr>,
                               \<lparr>timeLimit = lim, store = w2\<rparr>))
                | [] \<Rightarrow>
                    (let (shortCode', w1) = nanoid g w;
                         (newRecord, w2) = pbCreate now l shortCode' None w1
                     in Inr (\<lparr>res_shortCode = shortCode newRecord, res_message = msgCreated\<rparr>,
                             \<lparr>timeLimit = lim, store = w2\<rparr>))))"

text \<open>The filter of \<open>/stats/active\<close>: \<open>now - createdTime <= DEFAULT_TIME_LIMIT\<close>.\<close>

definition isActive_index :: "int \<Rightarrow> rat jsnum \<Rightarrow> urlRecord \<Rightarrow> bool" where
  "isActive_index now lim record = jsLe (Fin (of_int (now - created record))) lim"

definition statsActive_index :: "int \<Rightarrow> edition0 \<Rightarrow> statsReport" where
  "statsActive_index now st =
     (let recs = getFullList (\<lambda>_. True) (store st);
          active = filter (isActive_index now (timeLimit st)) recs
      in \<lparr>total = length active, groups = groupByDate active, activeRecords = active\<rparr>)"

text \<open>
  One round of the batch loop. When \<open>existingMap[link]\<close> is an inherited member,
  \<open>now - createdTime\<close> is \<open>NaN\<close>, the test \<open>now - createdTime > DEFAULT_TIME_LIMIT\<close> is false,
  and the round creates a row.
\<close>

definition batchStep_index ::
  "(nat \<Rightarrow> string) \<Rightarrow> (string \<rightharpoonup> urlRecord) \<Rightarrow> int \<Rightarrow> rat jsnum \<Rightarrow> string \<Rightarrow> world
     \<Rightarrow> error + (batchEntry \<times> world)" where
  "batchStep_index g existingMap now lim l w =
     (case lookupExisting existingMap l of
        Own record \<Rightarrow>
          if older0 now lim record then
            (let (newShortCode, w1) = nanoid g w in
             case pbUpdate (rid record)
                    \<lparr>p_shortCode = Some newShortCode, p_created = None, p_expiry = None\<rparr> w1 of
               None \<Rightarrow> Inl InternalServerError
             | Some (updatedRecord, w2) \<Rightarrow>
                 Inr (\<lparr>b_link = l, b_shortCode = newShortCode, b_action = ''updated''\<rparr>, w2))
          else
            (let (shortCode', w1) = nanoid g w;
                 (newRecord, w2) = pbCreate now l shortCode' None w1
             in Inr (\<lparr>b_link = l, b_shortCode = shortCode', b_action = ''created''\<rparr>, w2))
      | Inherited \<Rightarrow>
          (let (shortCode', w1) = nanoid g w;
               (newRecord, w2) = pbCreate now l shortCode' None w1
           in Inr (\<lparr>b_link = l, b_shortCode = shortCode', b_action = ''created''\<rparr>, w2))
      | Missing \<Rightarrow>
          (let (shortCode', w1) = nanoid g w;
               (newRecord, w2) = pbCreate now l shortCode' None w1
           in Inr (\<lparr>b_link = l, b_shortCode = shortCode', b_action = ''created''\<rparr>, w2)))"

fun batchLoop_index ::
  "(nat \<Rightarrow> string) \<Rightarrow> (string \<rightharpoonup> urlRecord) \<Rightarrow> int \<Rightarrow> rat jsnum \<Rightarrow> string list \<Rightarrow> world
     \<Rightarrow> error + (batchEntry list \<times> world)" where
  "batchLoop_index g existingMap now lim [] w = Inr ([], w)"
| "batchLoop_index g existingMap now lim (l # ls) w =
     (case batchStep_index g existingMap now lim l w of
        Inl e \<Rightarrow> Inl e
      | Inr (entry, w1) \<Rightarrow>
          (case batchLoop_index g existingMap now lim ls w1 of
             Inl e \<Rightarrow> Inl e
           | Inr (results, w2) \<Rightarrow> Inr (entry # results, w2)))"

definition urlsBatch_index ::
  "(nat \<Rightarrow> string) \<Rightarrow> int \<Rightarrow> string list option \<Rightarrow> jsvalue \<Rightarrow> edition0
     \<Rightarrow> error + (batchEntry list \<times> edition0)" where
  "urlsBatch_index g now links ex st =
     (case links of
        None \<Rightarrow> Inl BadRequest
      | Some ls \<Rightarrow>
          let existingMap = existingMapOf (batchExisting ls (store st));
              lim = assignLimit now ex (timeLimit st)
          in (case batchLoop_index g existingMap now lim ls (store st) of
                Inl e \<Rightarrow> Inl e
              | Inr (results, w2) \<Rightarrow> Inr (results, \<lparr>timeLimit = lim, store = w2\<rparr>)))"

section \<open>Notions used to state the properties\<close>

text \<open>Whether a round of the batch loop calls \<open>nanoid\<close>: it does unless it refreshes a row.\<close>

definition drawsNow :: "(string \<rightharpoonup> urlRecord) \<Rightarrow> int \<Rightarrow> string \<Rightarrow> bool" where
  "drawsNow m now l = (case m l of None \<Rightarrow> True | Some r \<Rightarrow> batchExpired now r)"

text \<open>The number of calls to \<open>nanoid\<close> that the rounds for the given links make.\<close>

definition drawsOf :: "(string \<rightharpoonup> urlRecord) \<Rightarrow> int \<Rightarrow> string list \<Rightarrow> nat" where
  "drawsOf m now ls = length (filter (drawsNow m now) ls)"

text \<open>Every row of the snapshot map is still held by the store.\<close>

definition covers :: "(string \<rightharpoonup> urlRecord) \<Rightarrow> world \<Rightarrow> bool" where
  "covers m w = (\<forall>l r. m l = Some r \<longrightarrow> rid r \<in> set (map rid (records w)))"

text \<open>Every row of the snapshot map that the batch loop takes for active still has its short
  code in the store.\<close>

definition keeps :: "(string \<rightharpoonup> urlRecord) \<Rightarrow> int \<Rightarrow> world \<Rightarrow> bool" where
  "keeps m now w =
     (\<forall>l r. m l = Some r \<longrightarrow> \<not> batchExpired now r \<longrightarrow>
        (\<exists>x. find (\<lambda>x. rid x = rid r) (records w) = Some x \<and> shortCode x = shortCode r))"

text \<open>Distinct rows of the snapshot map have distinct ids.\<close>

definition inj_ids :: "(string \<rightharpoonup> urlRecord) \<Rightarrow> bool" where
  "inj_ids m = (\<forall>l l' r r'. m l = Some r \<longrightarrow> m l' = Some r' \<longrightarrow> rid r = rid r' \<longrightarrow> r = r')"

section \<open>Data of the worked examples\<close>

text \<open>
  A generator whose first calls return \<open>code00\<close>, \<open>code01\<close>; a store with one row created
  at instant 0 with a stored expiry of one second; one whose row has the stored expiry
  \<open>"0"\<close>; one whose row has no expiry field, as the earlier edition creates them; and one
  with rows on two calendar dates.
\<close>

definition exampleGen :: "nat \<Rightarrow> string" where
  "exampleGen n = (if n = 0 then ''code00'' else if n = 1 then ''code01'' else ''code02'')"

definition exampleRecord :: urlRecord where
  "exampleRecord =
     \<lparr>rid = 0, originalUrl = ''http://a.example'', shortCode = ''abc123'', created = 0,
      expiry = Some ''1000''\<rparr>"

definition exampleWorld :: world where
  "exampleWorld = \<lparr>records = [exampleRecord], nextId = 1, draws = 0\<rparr>"

definition zeroRecord :: urlRecord where
  "zeroRecord =
     \<lparr>rid = 0, originalUrl = ''http://z.example'', shortCode = ''zzz000'', created = 0,
      expiry = Some ''0''\<rparr>"

definition zeroWorld :: world where
  "zeroWorld = \<lparr>records = [zeroRecord], nextId = 1, draws = 0\<rparr>"

definition legacyRecord :: urlRecord where
  "legacyRecord =
     \<lparr>rid = 0, originalUrl = ''http://a.example'', shortCode = ''abc123'', created = 0,
      expiry = None\<rparr>"

definition legacyWorld :: world where
  "legacyWorld = \<lparr>records = [legacyRecord], nextId = 1, draws = 0\<rparr>"

definition statsWorld :: world where
  "statsWorld =
     \<lparr>records =
        [\<lparr>rid = 0, originalUrl = ''http://a.example'', shortCode = ''aaaaaa'', created = 0,
          expiry = Some ''200000000''\<rparr>,
         \<lparr>rid = 1, originalUrl = ''http://b.example'', shortCode = ''bbbbbb'', created = 86400000,
          expiry = None\<rparr>,
         \<lparr>rid = 2, originalUrl = ''http://c.example'', shortCode = ''cccccc'', created = 1000,
          expiry = Some ''200000000''\<rparr>,
         \<lparr>rid = 3, originalUrl = ''http://d.example'', shortCode = ''dddddd'', created = 5,
          expiry = Some ''10''\<rparr>],
      nextId = 4, draws = 4\<rparr>"

section \<open>Auxiliary lemmas\<close>

subsection \<open>Rules for evaluating the text functions\<close>

lemma codeLen_plain:
  assumes "(of_char c :: nat) < 128" and "(of_char c :: nat) \<notin> {9, 10, 11, 12, 13, 32}"
  shows "codeLen whiteCodes (c # cs) = 0" and "codeLen (map rev whiteCodes) (c # cs) = 0"
  using assms by (auto simp: codeLen_def whiteCodes_def startsWith_def)

lemma skipWhite_Nil: "skipWhite [] = []" "skipCodes (map rev whiteCodes) [] = []"
  by (simp_all add: skipWhite_def skipCodes.simps [of _ "[]"] codeLen_def whiteCodes_def
      startsWith_def)

text \<open>Text that begins (or ends) with an ASCII byte that is not white space keeps it.\<close>

lemma skipWhite_plain:
  assumes "(of_char c :: nat) < 128" and "(of_char c :: nat) \<notin> {9, 10, 11, 12, 13, 32}"
  shows "skipWhite (c # cs) = c # cs" and "skipCodes (map rev whiteCodes) (c # cs) = c # cs"
  using codeLen_plain [OF assms, of cs]
  by (simp_all add: skipWhite_def skipCodes.simps [of _ "c # cs"])

lemmas parse_defs = parseInt_def parseIntStr_def stripSign_def stripHexPrefix_def
  skipWhite_Nil skipWhite_plain isDigitR_def digitValue_def digitsValue_def parseIntField_def

lemmas show_defs = numberToString_def showInt_def showNat.simps digitChar_def

lemmas white_defs = skipWhite_def trimWhite_def skipCodes.simps codeLen_def whiteCodes_def
  startsWith_def

lemma parseInt_examples:
  "parseInt (JString ''  -12px'') = Fin (- 12)"
  "parseInt (JString ''0x1F'') = Fin 31"
  "parseInt (JString ''1e3'') = Fin 1"
  "parseInt (JString ''abc'') = NaN"
  "parseInt (JString [char_of (194 :: nat), char_of (160 :: nat), CHR ''7'']) = Fin 7"
  "parseInt (JBool True) = NaN"
  "parseInt (JNumber 5000) = Fin 5000"
  "parseInt (JNumber 1000000000000000000000) = Fin 1"
  "parseInt (JNumber (- 2500000000000000000000)) = Fin (- 2)"
  by (simp_all add: parseInt_def parseIntStr_def stripSign_def stripHexPrefix_def white_defs
      isDigitR_def digitValue_def digitsValue_def show_defs showExp_def)

lemma numToString_examples:
  "numToString (Fin 3600000) = ''3600000''"
  "numToString (Fin (- 5)) = ''-5''"
  "numToString (Fin 1000000000000000000000) = ''1e+21''"
  "numToString (Fin 1250000000000000000000000) = ''1.25e+24''"
  "numToString NaN = ''NaN''"
  by (simp_all add: show_defs showExp_def)

lemmas date_defs = isoDate_def civilFromDays_def civilEra_def civilYear_def civilDay_def
  civilMonth_def civilDate_def yearString_def padLeft_def

lemma isoDate_examples:
  "isoDate 0 = ''1970-01-01''" "isoDate 1000 = ''1970-01-01''" "isoDate 86400000 = ''1970-01-02''"
  "isoDate 1700000000000 = ''2023-11-14''" "isoDate (- 1) = ''1969-12-31''"
  "isoDate 951782400000 = ''2000-02-29''" "isoDate 253402300800000 = ''+010000-01-01''"
  by (simp_all add: date_defs show_defs)

subsection \<open>Numbers written by \<open>toString\<close> are read back by \<open>parseInt\<close>\<close>

lemma digitValue_digitChar: "d < 10 \<Longrightarrow> digitValue (digitChar d) = Some d"
proof -
  assume "d < 10"
  then have "d \<in> {0, 1, 2, 3, 4, 5, 6, 7, 8, 9}" by auto
  then show ?thesis
    by (elim insertE emptyE) (simp_all add: digitValue_def digitChar_def)
qed

lemma isDigitR_digitChar: "d < 10 \<Longrightarrow> isDigitR 10 (digitChar d)"
  by (simp add: isDigitR_def digitValue_digitChar)

lemma showNat_digits: "list_all (isDigitR 10) (showNat n) \<and> showNat n \<noteq> []"
proof (induction n rule: showNat.induct)
  case (1 n)
  show ?case
  proof (cases "n < 10")
    case True
    then show ?thesis by (subst (1 2) showNat.simps) (simp add: isDigitR_digitChar)
  next
    case False
    then show ?thesis using 1 by (subst (1 2) showNat.simps) (simp add: isDigitR_digitChar)
  qed
qed

lemma digitsValue_snoc:
  "digitsValue R (ds @ [c]) = digitsValue R ds * R + (case digitValue c of None \<Rightarrow> 0 | Some d \<Rightarrow> d)"
  by (simp add: digitsValue_def)

lemma digitsValue_showNat: "digitsValue 10 (showNat n) = n"
proof (induction n rule: showNat.induct)
  case (1 n)
  show ?case
  proof (cases "n < 10")
    case True
    then show ?thesis
      by (subst showNat.simps) (simp add: digitsValue_def digitValue_digitChar)
  next
    case False
    then have "digitsValue 10 (showNat (n div 10)) = n div 10" using 1 by simp
    then show ?thesis using False
      by (subst showNat.simps) (simp add: digitsValue_snoc digitValue_digitChar)
  qed
qed

lemma isDigitR_range: "isDigitR 10 c \<Longrightarrow> 48 \<le> (of_char c :: nat) \<and> (of_char c :: nat) \<le> 57"
  by (auto simp: isDigitR_def digitValue_def Let_def split: if_splits)

lemma decimal_not_special:
  assumes "isDigitR 10 c"
  shows "skipWhite (c # cs) = c # cs" and "c \<noteq> CHR ''-''" and "c \<noteq> CHR ''+''"
    and "c \<noteq> CHR ''x''" and "c \<noteq> CHR ''X''"
proof -
  have r: "48 \<le> (of_char c :: nat) \<and> (of_char c :: nat) \<le> 57"
    using isDigitR_range [OF assms] .
  show "skipWhite (c # cs) = c # cs"
    by (rule skipWhite_plain(1)) (use r in auto)
  show "c \<noteq> CHR ''-''" and "c \<noteq> CHR ''+''" and "c \<noteq> CHR ''x''" and "c \<noteq> CHR ''X''"
    using r by auto
qed

lemma parseIntStr_decimal:
  assumes "list_all (isDigitR 10) ds" and "ds \<noteq> []"
  shows "parseIntStr ds = Fin (int (digitsValue 10 ds))"
    and "parseIntStr (CHR ''-'' # ds) = Fin (- int (digitsValue 10 ds))"
proof -
  obtain c cs where ds: "ds = c # cs" using assms(2) by (cases ds) auto
  have c: "isDigitR 10 c" using assms(1) ds by simp
  have hex: "stripHexPrefix ds = (10, ds)"
  proof (cases cs)
    case Nil
    then show ?thesis by (simp add: stripHexPrefix_def ds)
  next
    case (Cons b bs)
    then have "isDigitR 10 b" using assms(1) ds by simp
    then show ?thesis using decimal_not_special(4,5) Cons by (auto simp: stripHexPrefix_def ds)
  qed
  have tw: "takeWhile (isDigitR 10) ds = ds"
    using assms(1) by (simp add: list_all_iff)
  have sg: "stripSign ds = (False, ds)"
    using decimal_not_special(2,3) [OF c] by (simp add: stripSign_def ds)
  have dw: "skipWhite ds = ds"
    using decimal_not_special(1) [OF c] by (simp add: ds)
  show "parseIntStr ds = Fin (int (digitsValue 10 ds))"
    using assms(2) by (simp add: parseIntStr_def dw sg hex tw)
  have nw: "skipWhite (CHR ''-'' # ds) = CHR ''-'' # ds"
    by (rule skipWhite_plain(1)) simp_all
  have sg': "stripSign (CHR ''-'' # ds) = (True, ds)"
    by (simp add: stripSign_def)
  show "parseIntStr (CHR ''-'' # ds) = Fin (- int (digitsValue 10 ds))"
    using assms(2) by (simp add: parseIntStr_def nw sg' hex tw)
qed

lemma parseInt_number:
  assumes "\<bar>n\<bar> < 1000000000000000000000"
  shows "parseInt (JNumber n) = Fin n"
proof (cases "n < 0")
  case True
  then show ?thesis
    using assms parseIntStr_decimal(2) [of "showNat (nat (- n))"] showNat_digits [of "nat (- n)"]
    by (simp add: parseInt_def numberToString_def showInt_def digitsValue_showNat)
next
  case False
  then show ?thesis
    using assms parseIntStr_decimal(1) [of "showNat (nat n)"] showNat_digits [of "nat n"]
    by (simp add: parseInt_def numberToString_def showInt_def digitsValue_showNat)
qed

lemma effectiveExpiryOf_number:
  "\<bar>n\<bar> < 1000000000000000000000 \<Longrightarrow>
   effectiveExpiryOf (JNumber n) = (if n = 0 then Fin DEFAULT_TIME_LIMIT else Fin n)"
  by (simp add: effectiveExpiryOf_def parseInt_number)

lemma effectiveExpiryOf_absent: "effectiveExpiryOf JUndefined = Fin DEFAULT_TIME_LIMIT"
  by (simp add: effectiveExpiryOf_def)

lemma expiryDuration_of_written:
  "n \<noteq> 0 \<Longrightarrow> \<bar>n\<bar> < 1000000000000000000000 \<Longrightarrow> expiry r = Some (numToString (Fin n)) \<Longrightarrow>
   expiryDuration r = Fin n"
  using parseInt_number [of n]
  by (simp add: expiryDuration_def parseIntField_def parseInt_def jsOr_def)

lemma expiryDuration_zero: "expiry r = Some ''0'' \<Longrightarrow> expiryDuration r = Fin 3600000"
  by (simp add: expiryDuration_def jsOr_def DEFAULT_TIME_LIMIT_def parse_defs)

subsection \<open>The store\<close>

lemma find_by_rid:
  "distinct (map rid rs) \<Longrightarrow> r \<in> set rs \<Longrightarrow> find (\<lambda>x. rid x = rid r) rs = Some r"
  by (induction rs) (auto simp: image_iff)

lemma pbUpdate_member:
  assumes "distinct (map rid (records w))" and "r \<in> set (records w)"
  shows "pbUpdate (rid r) p w =
           Some (applyPatch p r,
                 w\<lparr>records := map (\<lambda>x. if rid x = rid r then applyPatch p x else x) (records w)\<rparr>)"
  using find_by_rid [OF assms] by (simp add: pbUpdate_def)

lemma getFullList_head:
  "getFullList flt w = r # rest \<Longrightarrow> r \<in> set (records w) \<and> flt r"
proof -
  assume h: "getFullList flt w = r # rest"
  have "r \<in> set (getFullList flt w)" by (simp add: h)
  then show ?thesis by (simp add: getFullList_def)
qed

lemma find_rid_exists:
  "i \<in> set (map rid xs) \<Longrightarrow> \<exists>x. find (\<lambda>x. rid x = i) xs = Some x"
  by (cases "find (\<lambda>x. rid x = i) xs") (auto simp: find_None_iff)

lemma map_rid_map:
  "(\<And>x. rid (f x) = rid x) \<Longrightarrow> map rid (map f xs) = map rid xs"
  by simp

lemma find_map_rid:
  "(\<And>x. rid (f x) = rid x) \<Longrightarrow>
   find (\<lambda>x. rid x = i) (map f xs) = map_option f (find (\<lambda>x. rid x = i) xs)"
  by (induction xs) auto

lemma find_append_some:
  "find P xs = Some x \<Longrightarrow> find P (xs @ ys) = Some x"
  by (induction xs) (auto split: if_splits)

lemma rid_applyPatch: "rid (applyPatch p x) = rid x"
  by (simp add: applyPatch_def)

lemma shortCode_of_find:
  "find (\<lambda>x. rid x = i) xs = Some x \<Longrightarrow> rid x = i"
  by (auto simp: find_Some_iff)

lemma distinct_rid_eq:
  "distinct (map rid xs) \<Longrightarrow> x \<in> set xs \<Longrightarrow> y \<in> set xs \<Longrightarrow> rid x = rid y \<Longrightarrow> x = y"
  by (meson distinct_map inj_onD)

subsection \<open>The handlers keep the row ids distinct\<close>

lemma wf_nanoid: "nanoid g w = (c, w1) \<Longrightarrow> wfStore w \<Longrightarrow> wfStore w1"
  by (auto simp: wfStore_def nanoid_def)

lemma wf_pbCreate: "pbCreate now url code ex w = (r, w1) \<Longrightarrow> wfStore w \<Longrightarrow> wfStore w1"
  by (force simp: wfStore_def pbCreate_def Let_def list_all_iff less_Suc_eq)

lemma wf_pbUpdate:
  assumes "pbUpdate i p w = Some (u, w')" and "wfStore w"
  shows "wfStore w'"
proof -
  let ?f = "\<lambda>x. if rid x = i then applyPatch p x else x"
  have w': "w' = w\<lparr>records := map ?f (records w)\<rparr>"
    using assms(1) by (auto simp: pbUpdate_def split: option.splits)
  have ids: "map rid (map ?f (records w)) = map rid (records w)"
    by (rule map_rid_map) (simp add: rid_applyPatch)
  have "list_all (\<lambda>r. rid r < nextId w) (map ?f (records w))"
    using assms(2) by (auto simp: wfStore_def list_all_iff rid_applyPatch)
  then show ?thesis
    using assms(2) ids by (simp add: wfStore_def w' del: map_map)
qed

lemma shorten_wf:
  assumes "wfStore w" and "shorten g now lnk ex w = Inr (resp, w')"
  shows "wfStore w'"
  using assms
  by (auto simp: shorten_def Let_def
      split: option.splits list.splits if_splits prod.splits
      dest: wf_nanoid wf_pbCreate wf_pbUpdate)

lemma batchStep_wf:
  assumes "wfStore w" and "batchStep g m now eff l w = Inr (e, w')"
  shows "wfStore w'"
  using assms
  by (auto simp: batchStep_def Let_def
      split: option.splits if_splits prod.splits slot.splits
      dest: wf_nanoid wf_pbCreate wf_pbUpdate)

lemma batchLoop_wf:
  "wfStore w \<Longrightarrow> batchLoop g m now eff ls w = Inr (rs, w') \<Longrightarrow> wfStore w'"
proof (induction ls arbitrary: w rs)
  case Nil
  then show ?case by simp
next
  case (Cons l ls)
  from Cons.prems(2) obtain e w1 rs1
    where st: "batchStep g m now eff l w = Inr (e, w1)"
      and lp: "batchLoop g m now eff ls w1 = Inr (rs1, w')"
    by (auto split: sum.splits)
  show ?case using Cons.IH [OF batchStep_wf [OF Cons.prems(1) st] lp] .
qed

lemma urlsBatch_wf:
  assumes "wfStore w" and "urlsBatch g now links ex w = Inr (rs, w')"
  shows "wfStore w'"
  using assms batchLoop_wf
  by (auto simp: urlsBatch_def Let_def split: option.splits)

lemma wf_distinct: "wfStore w \<Longrightarrow> distinct (map rid (records w))"
  by (simp add: wfStore_def)

lemma wf_empty: "wfStore \<lparr>records = [], nextId = 0, draws = 0\<rparr>"
  by (simp add: wfStore_def)

lemma shorten_index_wf:
  assumes "wfStore (store st)" and "shorten_index g now lnk ex st = Inr (resp, st')"
  shows "wfStore (store st')"
  using assms
  by (auto simp: shorten_index_def Let_def
      split: option.splits list.splits if_splits prod.splits
      dest: wf_nanoid wf_pbCreate wf_pbUpdate)

subsection \<open>The branches of \<open>/shorten\<close>\<close>

lemma shorten_refresh:
  assumes "distinct (map rid (records w))" and "l \<noteq> []"
    and "getFullList (\<lambda>x. originalUrl x = l) w = r # rest"
    and "\<not> shortenExpired now (effectiveExpiryOf ex) r"
  shows "shorten g now (Some l) ex w =
           Inr (\<lparr>res_shortCode = shortCode r, res_message = msgActive\<rparr>,
                w\<lparr>records := map (\<lambda>x. if rid x = rid r
                                        then x\<lparr>created := now, expiry := Some (numToString (effectiveExpiryOf ex))\<rparr>
                                        else x) (records w)\<rparr>)"
proof -
  have mem: "r \<in> set (records w)" using getFullList_head [OF assms(3)] by simp
  show ?thesis
    using assms(2,3,4) pbUpdate_member [OF assms(1) mem]
    by (simp add: shorten_def applyPatch_def)
qed

lemma shorten_rotate:
  assumes "distinct (map rid (records w))" and "l \<noteq> []"
    and "getFullList (\<lambda>x. originalUrl x = l) w = r # rest"
    and "shortenExpired now (effectiveExpiryOf ex) r"
  shows "shorten g now (Some l) ex w =
           Inr (\<lparr>res_shortCode = g (draws w), res_message = msgExpired\<rparr>,
                w\<lparr>records := map (\<lambda>x. if rid x = rid r
                                        then x\<lparr>shortCode := g (draws w), expiry := Some (numToString (effectiveExpiryOf ex))\<rparr>
                                        else x) (records w),
                  draws := Suc (draws w)\<rparr>)"
proof -
  have mem: "r \<in> set (records (w\<lparr>draws := Suc (draws w)\<rparr>))" using getFullList_head [OF assms(3)] by simp
  have d: "distinct (map rid (records (w\<lparr>draws := Suc (draws w)\<rparr>)))" using assms(1) by simp
  show ?thesis
    using assms(2,3,4) pbUpdate_member [OF d mem]
    by (simp add: shorten_def applyPatch_def nanoid_def)
qed

lemma shorten_index_within:
  assumes "l \<noteq> []"
    and "getFullList (\<lambda>x. originalUrl x = l) w = r # rest"
    and "\<not> older0 now (assignLimit now ex lim) r"
  shows "shorten_index g now (Some l) ex \<lparr>timeLimit = lim, store = w\<rparr> =
           Inr (\<lparr>res_shortCode = g (draws w), res_message = msgWithin0\<rparr>,
                \<lparr>timeLimit = assignLimit now ex lim,
                 store = w\<lparr>records := records w @
                             [\<lparr>rid = nextId w, originalUrl = l, shortCode = g (draws w),
                               created = now, expiry = None\<rparr>],
                           nextId := Suc (nextId w), draws := Suc (draws w)\<rparr>\<rparr>)"
  using assms by (simp add: shorten_index_def nanoid_def pbCreate_def Let_def)

lemma shorten_index_older:
  assumes "distinct (map rid (records w))" and "l \<noteq> []"
    and "getFullList (\<lambda>x. originalUrl x = l) w = r # rest"
    and "older0 now (assignLimit now ex lim) r"
  shows "shorten_index g now (Some l) ex \<lparr>timeLimit = lim, store = w\<rparr> =
           Inr (\<lparr>res_shortCode = g (draws w), res_message = msgOlder0\<rparr>,
                \<lparr>timeLimit = assignLimit now ex lim,
                 store = w\<lparr>records := map (\<lambda>x. if rid x = rid r then x\<lparr>shortCode := g (draws w)\<rparr> else x) (records w),
                           draws := Suc (draws w)\<rparr>\<rparr>)"
proof -
  have mem: "r \<in> set (records (w\<lparr>draws := Suc (draws w)\<rparr>))" using getFullList_head [OF assms(3)] by simp
  have d: "distinct (map rid (records (w\<lparr>draws := Suc (draws w)\<rparr>)))" using assms(1) by simp
  show ?thesis
    using assms(2,3,4) pbUpdate_member [OF d mem]
    by (simp add: shorten_index_def applyPatch_def nanoid_def)
qed

subsection \<open>The batch loop\<close>

lemma lookupExisting_own: "m l = Some r \<Longrightarrow> lookupExisting m l = Own r"
  by (simp add: lookupExisting_def)

lemma lookupExisting_missing: "m l = None \<Longrightarrow> \<not> inheritedName l \<Longrightarrow> lookupExisting m l = Missing"
  by (simp add: lookupExisting_def)

lemma lookupExisting_inherited: "m l = None \<Longrightarrow> inheritedName l \<Longrightarrow> lookupExisting m l = Inherited"
  by (simp add: lookupExisting_def)

lemma batchStep_create:
  assumes "m l = None" and "\<not> inheritedName l"
  shows "batchStep g m now eff l w =
           Inr (\<lparr>b_link = l, b_shortCode = g (draws w), b_action = ''created''\<rparr>,
                w\<lparr>records := records w @
                       [\<lparr>rid = nextId w, originalUrl = l, shortCode = g (draws w), created = now,
                         expiry = Some (numToString eff)\<rparr>],
                  nextId := Suc (nextId w), draws := Suc (draws w)\<rparr>)"
  using assms by (simp add: batchStep_def lookupExisting_missing nanoid_def pbCreate_def Let_def)

lemma batchStep_inherited:
  assumes "m l = None" and "inheritedName l"
  shows "batchStep g m now eff l w = Inl InternalServerError"
  using assms by (simp add: batchStep_def lookupExisting_inherited)

lemma batchStep_rotate:
  assumes "m l = Some r" and "batchExpired now r"
    and "find (\<lambda>x. rid x = rid r) (records w) = Some x"
  shows "batchStep g m now eff l w =
           Inr (\<lparr>b_link = l, b_shortCode = g (draws w), b_action = ''updated''\<rparr>,
                w\<lparr>records := map (\<lambda>x. if rid x = rid r
                                        then x\<lparr>shortCode := g (draws w), expiry := Some (numToString eff)\<rparr>
                                        else x) (records w),
                  draws := Suc (draws w)\<rparr>)"
  using assms by (simp add: batchStep_def lookupExisting_own nanoid_def pbUpdate_def applyPatch_def)

lemma batchStep_refresh:
  assumes "m l = Some r" and "\<not> batchExpired now r"
    and "find (\<lambda>x. rid x = rid r) (records w) = Some x"
  shows "batchStep g m now eff l w =
           Inr (\<lparr>b_link = l, b_shortCode = shortCode x, b_action = ''updated''\<rparr>,
                w\<lparr>records := map (\<lambda>x. if rid x = rid r
                                        then x\<lparr>created := now, expiry := Some (numToString eff)\<rparr>
                                        else x) (records w)\<rparr>)"
  using assms by (simp add: batchStep_def lookupExisting_own pbUpdate_def applyPatch_def)

text \<open>What one round returns, given only the snapshot and the number of draws so far,
  except for the code of a refreshed row.\<close>

lemma batchStep_total:
  assumes "covers m w" and plain: "\<not> inheritedName l"
  shows "\<exists>e w1. batchStep g m now eff l w = Inr (e, w1) \<and> covers m w1
           \<and> b_link e = l
           \<and> b_action e = (if m l = None then ''created'' else ''updated'')
           \<and> (drawsNow m now l \<longrightarrow> b_shortCode e = g (draws w))
           \<and> draws w1 = draws w + (if drawsNow m now l then 1 else 0)"
proof (cases "m l")
  case None
  have "covers m (w\<lparr>records := records w @
                       [\<lparr>rid = nextId w, originalUrl = l, shortCode = g (draws w), created = now,
                         expiry = Some (numToString eff)\<rparr>],
                  nextId := Suc (nextId w), draws := Suc (draws w)\<rparr>)"
    using assms by (auto simp: covers_def)
  then show ?thesis
    using None batchStep_create [of m l g now eff w] plain by (simp add: drawsNow_def)
next
  case (Some r)
  then obtain x where x: "find (\<lambda>x. rid x = rid r) (records w) = Some x"
    using assms find_rid_exists [of "rid r" "records w"] by (auto simp: covers_def)
  show ?thesis
  proof (cases "batchExpired now r")
    case True
    have "covers m (w\<lparr>records := map (\<lambda>x. if rid x = rid r
                                        then x\<lparr>shortCode := g (draws w), expiry := Some (numToString eff)\<rparr>
                                        else x) (records w),
                  draws := Suc (draws w)\<rparr>)"
      using assms by (simp add: covers_def map_rid_map del: map_map)
    then show ?thesis
      using Some True batchStep_rotate [of m l r now w x g eff] x by (simp add: drawsNow_def)
  next
    case False
    have "covers m (w\<lparr>records := map (\<lambda>x. if rid x = rid r
                                        then x\<lparr>created := now, expiry := Some (numToString eff)\<rparr>
                                        else x) (records w)\<rparr>)"
      using assms by (simp add: covers_def map_rid_map del: map_map)
    then show ?thesis
      using Some False batchStep_refresh [of m l r now w x g eff] x by (simp add: drawsNow_def)
  qed
qed

lemma batchLoop_total:
  assumes "covers m w" and "\<forall>l\<in>set ls. \<not> inheritedName l"
  shows "\<exists>rs w'. batchLoop g m now eff ls w = Inr (rs, w')
           \<and> map b_link rs = ls
           \<and> draws w' = draws w + drawsOf m now ls
           \<and> (\<forall>i<length ls.
                 b_action (rs ! i) = (if m (ls ! i) = None then ''created'' else ''updated'')
               \<and> (drawsNow m now (ls ! i) \<longrightarrow>
                     b_shortCode (rs ! i) = g (draws w + drawsOf m now (take i ls))))"
  using assms
proof (induction ls arbitrary: w)
  case Nil
  then show ?case by (simp add: drawsOf_def)
next
  case (Cons l ls)
  have pl: "\<not> inheritedName l" and pls: "\<forall>l\<in>set ls. \<not> inheritedName l"
    using Cons.prems(2) by simp_all
  from batchStep_total [OF Cons.prems(1) pl, of g now eff]
  obtain e w1 where st: "batchStep g m now eff l w = Inr (e, w1)" and c1: "covers m w1"
    and e1: "b_link e = l" and e2: "b_action e = (if m l = None then ''created'' else ''updated'')"
    and e3: "drawsNow m now l \<longrightarrow> b_shortCode e = g (draws w)"
    and d1: "draws w1 = draws w + (if drawsNow m now l then 1 else 0)"
    by blast
  from Cons.IH [OF c1 pls]
  obtain rs w' where lp: "batchLoop g m now eff ls w1 = Inr (rs, w')"
    and l1: "map b_link rs = ls" and l2: "draws w' = draws w1 + drawsOf m now ls"
    and l3: "\<forall>i<length ls.
                 b_action (rs ! i) = (if m (ls ! i) = None then ''created'' else ''updated'')
               \<and> (drawsNow m now (ls ! i) \<longrightarrow>
                     b_shortCode (rs ! i) = g (draws w1 + drawsOf m now (take i ls)))"
    by blast
  have res: "batchLoop g m now eff (l # ls) w = Inr (e # rs, w')"
    using st lp by simp
  have links: "map b_link (e # rs) = l # ls" using e1 l1 by simp
  have dr: "draws w' = draws w + drawsOf m now (l # ls)"
    using d1 l2 by (simp add: drawsOf_def)
  have ent: "\<forall>i<length (l # ls).
                 b_action ((e # rs) ! i) = (if m ((l # ls) ! i) = None then ''created'' else ''updated'')
               \<and> (drawsNow m now ((l # ls) ! i) \<longrightarrow>
                     b_shortCode ((e # rs) ! i) = g (draws w + drawsOf m now (take i (l # ls))))"
  proof (intro allI impI)
    fix i assume i: "i < length (l # ls)"
    show "b_action ((e # rs) ! i) = (if m ((l # ls) ! i) = None then ''created'' else ''updated'')
               \<and> (drawsNow m now ((l # ls) ! i) \<longrightarrow>
                     b_shortCode ((e # rs) ! i) = g (draws w + drawsOf m now (take i (l # ls))))"
    proof (cases i)
      case 0
      then show ?thesis using e2 e3 by (simp add: drawsOf_def)
    next
      case (Suc k)
      then have k: "k < length ls" using i by simp
      have "draws w1 + drawsOf m now (take k ls) = draws w + drawsOf m now (take (Suc k) (l # ls))"
        using d1 by (simp add: drawsOf_def)
      then show ?thesis using l3 k Suc by simp
    qed
  qed
  show ?case by (intro exI [of _ "e # rs"] exI [of _ w'] conjI res links dr ent)
qed

lemma existingMapOf_fold:
  "foldl (\<lambda>m record.
              let url = originalUrl record in
              (case lookupExisting m url of
                 Missing \<Rightarrow> m(url \<mapsto> record)
               | Own cur \<Rightarrow> if created record > created cur then m(url \<mapsto> record) else m
               | Inherited \<Rightarrow> m))
         m0 rs l = Some r
   \<Longrightarrow> m0 l = Some r \<or> (r \<in> set rs \<and> originalUrl r = l)"
proof (induction rs arbitrary: m0)
  case Nil
  then show ?case by simp
next
  case (Cons a rs)
  from Cons.IH [OF Cons.prems [simplified]]
  show ?case
    by (auto simp: Let_def lookupExisting_def split: option.splits if_splits slot.splits)
qed

lemma existingMapOf_member:
  "existingMapOf rs l = Some r \<Longrightarrow> r \<in> set rs \<and> originalUrl r = l"
  using existingMapOf_fold [of Map.empty rs l r] by (simp add: existingMapOf_def)

lemma existingMapOf_fold_inherited:
  "inheritedName l \<Longrightarrow> m0 l = None \<Longrightarrow>
   foldl (\<lambda>m record.
              let url = originalUrl record in
              (case lookupExisting m url of
                 Missing \<Rightarrow> m(url \<mapsto> record)
               | Own cur \<Rightarrow> if created record > created cur then m(url \<mapsto> record) else m
               | Inherited \<Rightarrow> m))
         m0 rs l = None"
proof (induction rs arbitrary: m0)
  case Nil
  then show ?case by simp
next
  case (Cons a rs)
  have "(case lookupExisting m0 (originalUrl a) of
           Missing \<Rightarrow> m0(originalUrl a \<mapsto> a)
         | Own cur \<Rightarrow> if created a > created cur then m0(originalUrl a \<mapsto> a) else m0
         | Inherited \<Rightarrow> m0) l = None"
    using Cons.prems
    by (auto simp: lookupExisting_def split: option.splits if_splits)
  then show ?case using Cons.IH [OF Cons.prems(1)] by (simp add: Let_def)
qed

lemma existingMapOf_inherited: "inheritedName l \<Longrightarrow> existingMapOf rs l = None"
  using existingMapOf_fold_inherited [of l Map.empty rs] by (simp add: existingMapOf_def)

lemma batchExisting_subset: "set (batchExisting ls w) \<subseteq> set (records w)"
  by (auto simp: batchExisting_def getFullList_def)

lemma covers_initial: "covers (existingMapOf (batchExisting ls w)) w"
  using existingMapOf_member batchExisting_subset by (fastforce simp: covers_def)

lemma filter_take_le: "length (filter P (take i xs)) \<le> length (filter P xs)"
proof -
  have "length (filter P xs) = length (filter P (take i xs)) + length (filter P (drop i xs))"
    by (metis append_take_drop_id filter_append length_append)
  then show ?thesis by simp
qed

lemma drawsOf_take_mono:
  assumes "i \<le> j"
  shows "drawsOf m now (take i ls) \<le> drawsOf m now (take j ls)"
proof -
  have "take i ls = take i (take j ls)" using assms by (simp add: min_def)
  then show ?thesis using filter_take_le [of "drawsNow m now" i "take j ls"] by (simp add: drawsOf_def)
qed

lemma drawsOf_take_Suc:
  assumes "i < length ls"
  shows "drawsOf m now (take (Suc i) ls) =
           drawsOf m now (take i ls) + (if drawsNow m now (ls ! i) then 1 else 0)"
  using assms by (simp add: drawsOf_def take_Suc_conv_app_nth)

lemma drawsOf_take_le: "drawsOf m now (take i ls) \<le> drawsOf m now ls"
  using filter_take_le [of "drawsNow m now" i ls] by (simp add: drawsOf_def)

lemma existingMapOf_unseen:
  assumes "u \<notin> set (map originalUrl (records w))"
  shows "existingMapOf (batchExisting ls w) u = None"
proof (cases "existingMapOf (batchExisting ls w) u")
  case None
  then show ?thesis .
next
  case (Some r)
  then have "r \<in> set (records w)" and "originalUrl r = u"
    using existingMapOf_member [OF Some] batchExisting_subset [of ls w] by auto
  then show ?thesis using assms by auto
qed

lemma batchStep_keeps:
  assumes cov: "covers m w" and kp: "keeps m now w" and inj: "inj_ids m"
    and st: "batchStep g m now eff l w = Inr (e, w1)"
  shows "keeps m now w1 \<and> (\<forall>r. m l = Some r \<longrightarrow> \<not> batchExpired now r \<longrightarrow> b_shortCode e = shortCode r)"
proof (cases "m l")
  case None
  have pl: "\<not> inheritedName l"
    using st None batchStep_inherited [of m l g now eff w] by (cases "inheritedName l") simp_all
  have w1: "w1 = w\<lparr>records := records w @
                       [\<lparr>rid = nextId w, originalUrl = l, shortCode = g (draws w), created = now,
                         expiry = Some (numToString eff)\<rparr>],
                  nextId := Suc (nextId w), draws := Suc (draws w)\<rparr>"
    using st batchStep_create [of m l g now eff w] None pl by simp
  have "keeps m now w1"
    unfolding keeps_def
  proof (intro allI impI)
    fix l' r assume a: "m l' = Some r" "\<not> batchExpired now r"
    then obtain x where x: "find (\<lambda>x. rid x = rid r) (records w) = Some x" "shortCode x = shortCode r"
      using kp by (auto simp: keeps_def)
    show "\<exists>x. find (\<lambda>x. rid x = rid r) (records w1) = Some x \<and> shortCode x = shortCode r"
      using x by (simp add: w1 find_append_some)
  qed
  then show ?thesis using None by simp
next
  case (Some r1)
  then obtain x1 where x1: "find (\<lambda>x. rid x = rid r1) (records w) = Some x1"
    using cov find_rid_exists [of "rid r1" "records w"] by (auto simp: covers_def)
  show ?thesis
  proof (cases "batchExpired now r1")
    case True
    let ?f = "\<lambda>x. if rid x = rid r1
                   then x\<lparr>shortCode := g (draws w), expiry := Some (numToString eff)\<rparr> else x"
    have w1: "w1 = w\<lparr>records := map ?f (records w), draws := Suc (draws w)\<rparr>"
      using st batchStep_rotate [of m l r1 now w x1 g eff] Some True x1 by simp
    have "keeps m now w1"
      unfolding keeps_def
    proof (intro allI impI)
      fix l' r assume a: "m l' = Some r" "\<not> batchExpired now r"
      then obtain x where x: "find (\<lambda>x. rid x = rid r) (records w) = Some x" "shortCode x = shortCode r"
        using kp by (auto simp: keeps_def)
      have ne: "rid r \<noteq> rid r1"
        using inj a Some True by (auto simp: inj_ids_def)
      have rx: "rid x = rid r" using shortCode_of_find [OF x(1)] .
      have "find (\<lambda>x. rid x = rid r) (map ?f (records w)) = map_option ?f (find (\<lambda>x. rid x = rid r) (records w))"
        by (rule find_map_rid) simp
      then have "find (\<lambda>x. rid x = rid r) (records w1) = Some x"
        using x(1) rx ne by (simp add: w1)
      then show "\<exists>x. find (\<lambda>x. rid x = rid r) (records w1) = Some x \<and> shortCode x = shortCode r"
        using x(2) by simp
    qed
    then show ?thesis using Some True by simp
  next
    case False
    let ?f = "\<lambda>x. if rid x = rid r1
                   then x\<lparr>created := now, expiry := Some (numToString eff)\<rparr> else x"
    have res: "e = \<lparr>b_link = l, b_shortCode = shortCode x1, b_action = ''updated''\<rparr>"
      and w1: "w1 = w\<lparr>records := map ?f (records w)\<rparr>"
      using st batchStep_refresh [of m l r1 now w x1 g eff] Some False x1 by simp_all
    have "keeps m now w1"
      unfolding keeps_def
    proof (intro allI impI)
      fix l' r assume a: "m l' = Some r" "\<not> batchExpired now r"
      then obtain x where x: "find (\<lambda>x. rid x = rid r) (records w) = Some x" "shortCode x = shortCode r"
        using kp by (auto simp: keeps_def)
      have "find (\<lambda>x. rid x = rid r) (map ?f (records w)) = map_option ?f (find (\<lambda>x. rid x = rid r) (records w))"
        by (rule find_map_rid) simp
      then have "find (\<lambda>x. rid x = rid r) (records w1) = Some (?f x)"
        using x(1) by (simp add: w1)
      moreover have "shortCode (?f x) = shortCode r" using x(2) by simp
      ultimately show "\<exists>x. find (\<lambda>x. rid x = rid r) (records w1) = Some x \<and> shortCode x = shortCode r"
        by blast
    qed
    moreover have "shortCode x1 = shortCode r1"
    proof -
      obtain y where "find (\<lambda>x. rid x = rid r1) (records w) = Some y" and "shortCode y = shortCode r1"
        using kp Some False unfolding keeps_def by blast
      then show ?thesis using x1 by simp
    qed
    ultimately show ?thesis using Some False res by simp
  qed
qed

lemma batchLoop_keeps:
  assumes "covers m w" and "keeps m now w" and "inj_ids m"
    and "batchLoop g m now eff ls w = Inr (rs, w')"
    and "\<forall>l\<in>set ls. \<not> inheritedName l"
  shows "\<forall>i<length ls. \<forall>r. m (ls ! i) = Some r \<longrightarrow> \<not> batchExpired now r \<longrightarrow>
           b_shortCode (rs ! i) = shortCode r"
  using assms
proof (induction ls arbitrary: w rs)
  case Nil
  then show ?case by simp
next
  case (Cons l ls)
  have pl: "\<not> inheritedName l" and pls: "\<forall>l\<in>set ls. \<not> inheritedName l"
    using Cons.prems(5) by simp_all
  from batchStep_total [OF Cons.prems(1) pl, of g now eff]
  obtain e w1 where st: "batchStep g m now eff l w = Inr (e, w1)" and c1: "covers m w1"
    by blast
  from batchStep_keeps [OF Cons.prems(1,2,3) st]
  have k1: "keeps m now w1"
    and e1: "\<forall>r. m l = Some r \<longrightarrow> \<not> batchExpired now r \<longrightarrow> b_shortCode e = shortCode r"
    by simp_all
  from Cons.prems(4) st obtain rs1 where lp: "batchLoop g m now eff ls w1 = Inr (rs1, w')"
    and rs: "rs = e # rs1"
    by (auto split: sum.splits)
  have ih: "\<forall>i<length ls. \<forall>r. m (ls ! i) = Some r \<longrightarrow> \<not> batchExpired now r \<longrightarrow>
           b_shortCode (rs1 ! i) = shortCode r"
    using Cons.IH [OF c1 k1 Cons.prems(3) lp pls] .
  show ?case
  proof (intro allI impI)
    fix i r assume i: "i < length (l # ls)" and a: "m ((l # ls) ! i) = Some r" "\<not> batchExpired now r"
    show "b_shortCode (rs ! i) = shortCode r"
    proof (cases i)
      case 0
      then show ?thesis using e1 a rs by simp
    next
      case (Suc k)
      then show ?thesis using ih i a rs by simp
    qed
  qed
qed

lemma keeps_initial:
  assumes "distinct (map rid (records w))"
  shows "keeps (existingMapOf (batchExisting ls w)) now w"
  unfolding keeps_def
proof (intro allI impI)
  fix l r assume "existingMapOf (batchExisting ls w) l = Some r"
  then have "r \<in> set (records w)"
    using existingMapOf_member batchExisting_subset by fastforce
  then show "\<exists>x. find (\<lambda>x. rid x = rid r) (records w) = Some x \<and> shortCode x = shortCode r"
    using find_by_rid [OF assms] by simp
qed

lemma inj_ids_initial:
  assumes "distinct (map rid (records w))"
  shows "inj_ids (existingMapOf (batchExisting ls w))"
  unfolding inj_ids_def
proof (intro allI impI)
  fix l l' r r'
  assume "existingMapOf (batchExisting ls w) l = Some r"
    and "existingMapOf (batchExisting ls w) l' = Some r'" and eq: "rid r = rid r'"
  then have "r \<in> set (records w)" and "r' \<in> set (records w)"
    using existingMapOf_member batchExisting_subset by fastforce+
  then show "r = r'" using distinct_rid_eq [OF assms] eq by blast
qed

lemma batchStep_error:
  "batchStep g m now eff l w = Inl e \<Longrightarrow> e = InternalServerError"
  by (auto simp: batchStep_def Let_def split: slot.splits if_splits option.splits prod.splits)

lemma batchLoop_inherited:
  assumes "\<forall>l. inheritedName l \<longrightarrow> m l = None" and "\<exists>l\<in>set ls. inheritedName l"
  shows "batchLoop g m now eff ls w = Inl InternalServerError"
  using assms(2)
proof (induction ls arbitrary: w)
  case Nil
  then show ?case by simp
next
  case (Cons l ls)
  show ?case
  proof (cases "batchStep g m now eff l w")
    case (Inl e)
    then show ?thesis using batchStep_error [OF Inl] by simp
  next
    case (Inr p)
    obtain entry w1 where p: "p = (entry, w1)" by (cases p)
    have "\<not> inheritedName l"
      using Inr assms(1) batchStep_inherited [of m l g now eff w] by (cases "inheritedName l") simp_all
    then have "\<exists>l\<in>set ls. inheritedName l" using Cons.prems by simp
    then show ?thesis using Cons.IH [of w1] Inr p by simp
  qed
qed

text \<open>A batch request with a link that is an inherited name ends with status 500.\<close>

lemma urlsBatch_inherited:
  assumes "\<exists>l\<in>set ls. inheritedName l"
  shows "urlsBatch g now (Some ls) ex w = Inl InternalServerError"
  using batchLoop_inherited [OF _ assms] existingMapOf_inherited
  by (simp add: urlsBatch_def)

subsection \<open>Grouping by date\<close>

lemma map_of_bump:
  "map_of (bump d acc) k =
     (if k = d then Some (case map_of acc d of None \<Rightarrow> 1 | Some c \<Rightarrow> c + 1) else map_of acc k)"
  by (induction acc) auto

lemma keys_bump: "set (map fst (bump d acc)) = insert d (set (map fst acc))"
  by (induction d acc rule: bump.induct) (simp_all add: insert_commute)

lemma distinct_bump: "distinct (map fst acc) \<Longrightarrow> distinct (map fst (bump d acc))"
proof (induction acc)
  case Nil
  then show ?case by simp
next
  case (Cons a acc)
  obtain k c where a: "a = (k, c)" by (cases a)
  show ?case
  proof (cases "k = d")
    case True
    then show ?thesis using Cons.prems a by simp
  next
    case False
    have "k \<notin> set (map fst acc)" using Cons.prems a by simp
    then have "k \<notin> set (map fst (bump d acc))"
      using False keys_bump [of d acc] by simp
    moreover have "distinct (map fst (bump d acc))" using Cons by simp
    ultimately show ?thesis using a False by simp
  qed
qed

lemma sum_bump: "sum_list (map snd (bump d acc)) = Suc (sum_list (map snd acc))"
  by (induction acc) auto

lemma fold_bump_distinct:
  "distinct (map fst acc) \<Longrightarrow> distinct (map fst (foldl (\<lambda>acc record. bump (key record) acc) acc rs))"
  by (induction rs arbitrary: acc) (simp_all add: distinct_bump)

lemma fold_bump_keys:
  "set (map fst (foldl (\<lambda>acc record. bump (key record) acc) acc rs)) = set (map fst acc) \<union> key ` set rs"
proof (induction rs arbitrary: acc)
  case Nil
  then show ?case by simp
next
  case (Cons a rs)
  show ?case using Cons [of "bump (key a) acc"] keys_bump [of "key a" acc] by auto
qed

lemma fold_bump_sum:
  "sum_list (map snd (foldl (\<lambda>acc record. bump (key record) acc) acc rs)) = sum_list (map snd acc) + length rs"
  by (induction rs arbitrary: acc) (simp_all add: sum_bump)

lemma fold_bump_count:
  "map_of (foldl (\<lambda>acc record. bump (key record) acc) acc rs) k =
     (case map_of acc k of
        None \<Rightarrow> if filter (\<lambda>r. key r = k) rs = [] then None
                else Some (length (filter (\<lambda>r. key r = k) rs))
      | Some c \<Rightarrow> Some (c + length (filter (\<lambda>r. key r = k) rs)))"
proof (induction rs arbitrary: acc)
  case Nil
  then show ?case by (simp split: option.splits)
next
  case (Cons a rs)
  show ?case
    by (simp add: Cons [of "bump (key a) acc"] map_of_bump split: option.splits)
qed

lemma groupByDate_props:
  "distinct (map fst (groupByDate rs))
   \<and> set (map fst (groupByDate rs)) = (\<lambda>r. isoDate (created r)) ` set rs
   \<and> sum_list (map snd (groupByDate rs)) = length rs
   \<and> (\<forall>(d, c) \<in> set (groupByDate rs). c = length (filter (\<lambda>r. isoDate (created r) = d) rs))"
proof -
  let ?key = "\<lambda>r. isoDate (created r)"
  have g: "groupByDate rs = foldl (\<lambda>acc record. bump (?key record) acc) [] rs"
    by (simp add: groupByDate_def)
  have dist: "distinct (map fst (groupByDate rs))"
    unfolding g by (rule fold_bump_distinct) simp
  have keys: "set (map fst (groupByDate rs)) = ?key ` set rs"
    unfolding g using fold_bump_keys [of ?key "[]" rs] by simp
  have sum: "sum_list (map snd (groupByDate rs)) = length rs"
    unfolding g using fold_bump_sum [of ?key "[]" rs] by simp
  have cnt: "\<And>k. map_of (groupByDate rs) k =
              (if filter (\<lambda>r. ?key r = k) rs = [] then None
               else Some (length (filter (\<lambda>r. ?key r = k) rs)))"
    unfolding g using fold_bump_count [of ?key "[]" rs] by simp
  have "\<forall>(d, c) \<in> set (groupByDate rs). c = length (filter (\<lambda>r. ?key r = d) rs)"
  proof (clarify)
    fix d c assume mem: "(d, c) \<in> set (groupByDate rs)"
    have "map_of (groupByDate rs) d = Some c"
      using map_of_is_SomeI [OF dist mem] .
    then have "(if filter (\<lambda>r. ?key r = d) rs = [] then None
               else Some (length (filter (\<lambda>r. ?key r = d) rs))) = Some c"
      by (simp only: cnt)
    then show "c = length (filter (\<lambda>r. ?key r = d) rs)"
      by (simp split: if_splits)
  qed
  then show ?thesis using dist keys sum by blast
qed

lemma statsWorld_active:
  "filter (isActive 86500000) (records statsWorld) = take 3 (records statsWorld)"
  by (simp add: statsWorld_def isActive_def expiryDuration_def jsOr_def DEFAULT_TIME_LIMIT_def parse_defs)

lemma statsWorld_groups:
  "groups (statsActive 86500000 statsWorld) = [(''1970-01-01'', 2), (''1970-01-02'', 1)]"
proof -
  have "groups (statsActive 86500000 statsWorld) = groupByDate (take 3 (records statsWorld))"
    using statsWorld_active by (simp add: statsActive_def getFullList_def Let_def)
  then show ?thesis
    by (simp add: groupByDate_def statsWorld_def isoDate_examples)
qed

section \<open>Properties of the handlers\<close>

text \<open>
  C1 (as amended). Let the store list a row for the URL, the first such row being \<open>r\<close>.
  In the revised edition, when \<open>r\<close> is not expired under the effective expiry of the
  request, \<open>/shorten\<close> answers with the short code of \<open>r\<close> and the message for an active
  row, sets \<open>created\<close> of that row to \<open>now\<close> and its \<open>expiry\<close> to the text of the effective
  expiry, and leaves every other row and the number of rows as they were. In the earlier
  edition, when \<open>r\<close> is not older than the time limit, \<open>/shorten\<close> leaves \<open>r\<close> as it is,
  appends a new row for the URL with a new code, and answers with that code.
\<close>

theorem active_record_is_refreshed:
  assumes "distinct (map rid (records w))" and "l \<noteq> []"
    and "getFullList (\<lambda>x. originalUrl x = l) w = r # rest"
  shows "(\<not> shortenExpired now (effectiveExpiryOf ex) r \<longrightarrow>
            shorten g now (Some l) ex w =
              Inr (\<lparr>res_shortCode = shortCode r, res_message = msgActive\<rparr>,
                   w\<lparr>records :=
                       map (\<lambda>x. if rid x = rid r
                                then x\<lparr>created := now,
                                       expiry := Some (numToString (effectiveExpiryOf ex))\<rparr>
                                else x) (records w)\<rparr>))
       \<and> (\<not> older0 now (assignLimit now ex lim) r \<longrightarrow>
            shorten_index g now (Some l) ex \<lparr>timeLimit = lim, store = w\<rparr> =
              Inr (\<lparr>res_shortCode = g (draws w), res_message = msgWithin0\<rparr>,
                   \<lparr>timeLimit = assignLimit now ex lim,
                    store = w\<lparr>records := records w @
                                [\<lparr>rid = nextId w, originalUrl = l, shortCode = g (draws w),
                                  created = now, expiry = None\<rparr>],
                              nextId := Suc (nextId w), draws := Suc (draws w)\<rparr>\<rparr>))"
  using shorten_refresh [OF assms, of now ex g] shorten_index_within [OF assms(2,3), of now ex lim g]
  by blast

theorem active_record_is_refreshed_witness:
  "shorten exampleGen 1000 (Some ''http://a.example'') JUndefined exampleWorld =
     Inr (\<lparr>res_shortCode = ''abc123'', res_message = msgActive\<rparr>,
          \<lparr>records = [\<lparr>rid = 0, originalUrl = ''http://a.example'', shortCode = ''abc123'',
                        created = 1000, expiry = Some ''3600000''\<rparr>],
           nextId = 1, draws = 0\<rparr>)
   \<and> shorten_index exampleGen 1000 (Some ''http://a.example'') JUndefined
        \<lparr>timeLimit = Fin 3600000, store = exampleWorld\<rparr> =
     Inr (\<lparr>res_shortCode = ''code00'', res_message = msgWithin0\<rparr>,
          \<lparr>timeLimit = Fin 3600000,
           store = \<lparr>records = [exampleRecord,
                               \<lparr>rid = 1, originalUrl = ''http://a.example'', shortCode = ''code00'',
                                 created = 1000, expiry = None\<rparr>],
                    nextId = 2, draws = 1\<rparr>\<rparr>)"
proof -
  have a: "distinct (map rid (records exampleWorld))" by (simp add: exampleWorld_def)
  have b: "''http://a.example'' \<noteq> []" by simp
  have c: "getFullList (\<lambda>x. originalUrl x = ''http://a.example'') exampleWorld = exampleRecord # []"
    by (simp add: getFullList_def exampleWorld_def exampleRecord_def)
  have e: "effectiveExpiryOf JUndefined = Fin 3600000"
    by (simp add: effectiveExpiryOf_def DEFAULT_TIME_LIMIT_def)
  have d: "\<not> shortenExpired 1000 (effectiveExpiryOf JUndefined) exampleRecord"
    by (simp add: e shortenExpired_def exampleRecord_def)
  have f: "\<not> older0 1000 (assignLimit 1000 JUndefined (Fin 3600000)) exampleRecord"
    by (simp add: older0_def assignLimit_def exampleRecord_def)
  show ?thesis
    using active_record_is_refreshed [OF a b c, of 1000 JUndefined exampleGen "Fin 3600000"] d f
    by (simp add: e assignLimit_def exampleWorld_def exampleRecord_def exampleGen_def show_defs)
qed

text \<open>
  C1 as stated fails on the earlier edition: for a URL whose row was created 1000 ms ago,
  under the time limit of one hour, \<open>/shorten\<close> answers with a new code and the store holds
  two rows for the URL afterwards.
\<close>

theorem earlier_edition_duplicates_active_record:
  "\<not> older0 1000 (Fin 3600000) legacyRecord
   \<and> shorten_index exampleGen 1000 (Some ''http://a.example'') JUndefined (initial0 legacyWorld) =
       Inr (\<lparr>res_shortCode = ''code00'', res_message = msgWithin0\<rparr>,
            \<lparr>timeLimit = Fin 3600000,
             store = \<lparr>records = [\<lparr>rid = 0, originalUrl = ''http://a.example'', shortCode = ''abc123'',
                                   created = 0, expiry = None\<rparr>,
                                 \<lparr>rid = 1, originalUrl = ''http://a.example'', shortCode = ''code00'',
                                   created = 1000, expiry = None\<rparr>],
                      nextId = 2, draws = 1\<rparr>\<rparr>)"
  by (simp add: older0_def shorten_index_def initial0_def assignLimit_def getFullList_def
      nanoid_def pbCreate_def legacyWorld_def legacyRecord_def exampleGen_def Let_def)

text \<open>
  C2 (as amended). In a batch request none of whose links is the name of an inherited
  object member, for a link that has a row in the snapshot map, the loop judges the row's \<open>created\<close> against the expiry stored on the row
  (\<open>parseInt(record.expiry) || DEFAULT_TIME_LIMIT\<close>), not against the expiry of the request:
  when \<open>now\<close> is later than \<open>created\<close> plus the stored duration the entry carries a code
  drawn during this request, otherwise it carries the row's code. The entry is tagged
  \<open>updated\<close> either way.
\<close>

theorem batch_decision_uses_stored_expiry:
  assumes ids: "distinct (map rid (records w))"
    and i: "i < length ls"
    and snap: "existingMapOf (batchExisting ls w) (ls ! i) = Some r"
    and plain: "\<forall>l\<in>set ls. \<not> inheritedName l"
  shows "\<exists>rs w'.
           urlsBatch g now (Some ls) ex w = Inr (rs, w')
         \<and> b_action (rs ! i) = ''updated''
         \<and> (if jsGt (Fin now) (jsAdd (Fin (created r)) (expiryDuration r))
            then \<exists>d. draws w \<le> d \<and> d < draws w' \<and> b_shortCode (rs ! i) = g d
            else b_shortCode (rs ! i) = shortCode r)"
proof -
  let ?m = "existingMapOf (batchExisting ls w)"
  from batchLoop_total [OF covers_initial [of ls w] plain, where g = g and now = now
      and eff = "effectiveExpiryOf ex"]
  obtain rs w' where run: "batchLoop g ?m now (effectiveExpiryOf ex) ls w = Inr (rs, w')"
    and dr: "draws w' = draws w + drawsOf ?m now ls"
    and ent: "\<forall>k<length ls.
                 b_action (rs ! k) = (if ?m (ls ! k) = None then ''created'' else ''updated'')
               \<and> (drawsNow ?m now (ls ! k) \<longrightarrow>
                     b_shortCode (rs ! k) = g (draws w + drawsOf ?m now (take k ls)))"
    by blast
  have res: "urlsBatch g now (Some ls) ex w = Inr (rs, w')"
    using run by (simp add: urlsBatch_def)
  have act: "b_action (rs ! i) = ''updated''" using ent i snap by simp
  have code: "if jsGt (Fin now) (jsAdd (Fin (created r)) (expiryDuration r))
            then \<exists>d. draws w \<le> d \<and> d < draws w' \<and> b_shortCode (rs ! i) = g d
            else b_shortCode (rs ! i) = shortCode r"
  proof (cases "batchExpired now r")
    case True
    then have dn: "drawsNow ?m now (ls ! i)" using snap by (simp add: drawsNow_def)
    let ?d = "draws w + drawsOf ?m now (take i ls)"
    have c: "b_shortCode (rs ! i) = g ?d" using ent i dn by simp
    have "drawsOf ?m now (take (Suc i) ls) = drawsOf ?m now (take i ls) + 1"
      using drawsOf_take_Suc [OF i, of ?m now] dn by simp
    moreover have "drawsOf ?m now (take (Suc i) ls) \<le> drawsOf ?m now ls"
      using drawsOf_take_le [of ?m now "Suc i" ls] .
    ultimately have "?d < draws w'" using dr by simp
    then have "\<exists>d. draws w \<le> d \<and> d < draws w' \<and> b_shortCode (rs ! i) = g d"
      using c by (intro exI [of _ ?d]) simp
    then show ?thesis using True by (simp add: batchExpired_def)
  next
    case False
    have "b_shortCode (rs ! i) = shortCode r"
      using batchLoop_keeps [OF covers_initial keeps_initial [OF ids] inj_ids_initial [OF ids] run plain]
        i snap False by blast
    then show ?thesis using False by (simp add: batchExpired_def)
  qed
  show ?thesis by (intro exI [of _ rs] exI [of _ w'] conjI res act code)
qed

theorem batch_decision_uses_stored_expiry_witness:
  "distinct (map rid (records exampleWorld))
   \<and> \<not> inheritedName ''http://a.example''
   \<and> existingMapOf (batchExisting [''http://a.example''] exampleWorld) ''http://a.example''
        = Some exampleRecord
   \<and> jsGt (Fin 5000) (jsAdd (Fin (created exampleRecord)) (expiryDuration exampleRecord))
   \<and> (\<exists>rs w'. urlsBatch exampleGen 5000 (Some [''http://a.example'']) (JNumber 10000000) exampleWorld
                   = Inr (rs, w')
          \<and> b_action (rs ! 0) = ''updated''
          \<and> (\<exists>d. draws exampleWorld \<le> d \<and> d < draws w' \<and> b_shortCode (rs ! 0) = exampleGen d))"
proof -
  have a: "distinct (map rid (records exampleWorld))"
    by (simp add: exampleWorld_def)
  have b: "existingMapOf (batchExisting [''http://a.example''] exampleWorld) ([''http://a.example''] ! 0)
             = Some exampleRecord"
    by (simp add: existingMapOf_def batchExisting_def getFullList_def lookupExisting_def
        inheritedName_def inheritedNames_def Let_def exampleWorld_def exampleRecord_def)
  have c: "jsGt (Fin 5000) (jsAdd (Fin (created exampleRecord)) (expiryDuration exampleRecord))"
    by (simp add: exampleRecord_def expiryDuration_def jsOr_def parse_defs)
  have p: "\<not> inheritedName ''http://a.example''"
    by (simp add: inheritedName_def inheritedNames_def)
  have pl: "\<forall>l\<in>set [''http://a.example'']. \<not> inheritedName l"
    using p by simp
  show ?thesis
    using a b c p
      batch_decision_uses_stored_expiry [OF a _ b pl, of exampleGen 5000 "JNumber 10000000"]
    by simp
qed

text \<open>
  C2 as stated fails: with a row created at 0 whose stored expiry is 1000, a request at
  time 5000 that carries the expiry 10000000 refreshes the row on \<open>/shorten\<close> (judged
  against the request's expiry) and rotates its code on \<open>/urls/batch\<close> (judged against the
  stored expiry).
\<close>

theorem batch_decision_differs_from_single:
  "\<not> shortenExpired 5000 (effectiveExpiryOf (JNumber 10000000)) exampleRecord
   \<and> shorten exampleGen 5000 (Some ''http://a.example'') (JNumber 10000000) exampleWorld =
       Inr (\<lparr>res_shortCode = ''abc123'', res_message = msgActive\<rparr>,
            \<lparr>records = [\<lparr>rid = 0, originalUrl = ''http://a.example'', shortCode = ''abc123'',
                          created = 5000, expiry = Some ''10000000''\<rparr>],
             nextId = 1, draws = 0\<rparr>)
   \<and> urlsBatch exampleGen 5000 (Some [''http://a.example'']) (JNumber 10000000) exampleWorld =
       Inr ([\<lparr>b_link = ''http://a.example'', b_shortCode = ''code00'', b_action = ''updated''\<rparr>],
            \<lparr>records = [\<lparr>rid = 0, originalUrl = ''http://a.example'', shortCode = ''code00'',
                          created = 0, expiry = Some ''10000000''\<rparr>],
             nextId = 1, draws = 1\<rparr>)"
proof -
  have e: "effectiveExpiryOf (JNumber 10000000) = Fin 10000000"
    by (simp add: effectiveExpiryOf_def parse_defs show_defs)
  have a: "\<not> shortenExpired 5000 (effectiveExpiryOf (JNumber 10000000)) exampleRecord"
    by (simp add: e shortenExpired_def exampleRecord_def)
  have s: "shorten exampleGen 5000 (Some ''http://a.example'') (JNumber 10000000) exampleWorld =
       Inr (\<lparr>res_shortCode = ''abc123'', res_message = msgActive\<rparr>,
            \<lparr>records = [\<lparr>rid = 0, originalUrl = ''http://a.example'', shortCode = ''abc123'',
                          created = 5000, expiry = Some ''10000000''\<rparr>],
             nextId = 1, draws = 0\<rparr>)"
    using a
    by (simp add: shorten_def e getFullList_def pbUpdate_def applyPatch_def exampleWorld_def
        exampleRecord_def show_defs)
  have m: "existingMapOf (batchExisting [''http://a.example''] exampleWorld) ''http://a.example''
             = Some exampleRecord"
    by (simp add: existingMapOf_def batchExisting_def getFullList_def lookupExisting_def
        inheritedName_def inheritedNames_def Let_def exampleWorld_def exampleRecord_def)
  have x: "batchExpired 5000 exampleRecord"
    by (simp add: batchExpired_def exampleRecord_def expiryDuration_def jsOr_def parse_defs)
  have b: "urlsBatch exampleGen 5000 (Some [''http://a.example'']) (JNumber 10000000) exampleWorld =
       Inr ([\<lparr>b_link = ''http://a.example'', b_shortCode = ''code00'', b_action = ''updated''\<rparr>],
            \<lparr>records = [\<lparr>rid = 0, originalUrl = ''http://a.example'', shortCode = ''code00'',
                          created = 0, expiry = Some ''10000000''\<rparr>],
             nextId = 1, draws = 1\<rparr>)"
    using m x
    by (simp add: urlsBatch_def batchStep_def lookupExisting_def e nanoid_def pbUpdate_def applyPatch_def
        exampleWorld_def exampleRecord_def exampleGen_def show_defs)
  show ?thesis using a s b by simp
qed

text \<open>
  C3. In the earlier edition a request that carries an expiry assigns
  \<open>expiry - now\<close> to \<open>DEFAULT_TIME_LIMIT\<close>, and the requests that follow use that value:
  after \<open>POST /shorten\<close> with expiry 60000 at time 1000000 the limit is -940000 instead
  of 3600000; one millisecond later a request without expiry takes the row just created
  for older than the limit and rotates its code, and \<open>/stats/active\<close> reports no active
  row. The batch handler writes the variable in the same way. In the revised edition
  \<open>DEFAULT_TIME_LIMIT\<close> is a constant and no handler takes or returns it.
\<close>

theorem earlier_edition_overwrites_default:
  "timeLimit (initial0 legacyWorld) = Fin 3600000
   \<and> shorten_index exampleGen 1000000 (Some ''http://n.example'') (JNumber 60000) (initial0 legacyWorld) =
       Inr (\<lparr>res_shortCode = ''code00'', res_message = msgCreated\<rparr>,
            \<lparr>timeLimit = Fin (- 940000),
             store = \<lparr>records = [legacyRecord,
                                 \<lparr>rid = 1, originalUrl = ''http://n.example'', shortCode = ''code00'',
                                   created = 1000000, expiry = None\<rparr>],
                      nextId = 2, draws = 1\<rparr>\<rparr>)
   \<and> shorten_index exampleGen 1000001 (Some ''http://n.example'') JUndefined
        \<lparr>timeLimit = Fin (- 940000),
         store = \<lparr>records = [legacyRecord,
                             \<lparr>rid = 1, originalUrl = ''http://n.example'', shortCode = ''code00'',
                               created = 1000000, expiry = None\<rparr>],
                  nextId = 2, draws = 1\<rparr>\<rparr> =
       Inr (\<lparr>res_shortCode = ''code01'', res_message = msgOlder0\<rparr>,
            \<lparr>timeLimit = Fin (- 940000),
             store = \<lparr>records = [legacyRecord,
                                 \<lparr>rid = 1, originalUrl = ''http://n.example'', shortCode = ''code01'',
                                   created = 1000000, expiry = None\<rparr>],
                      nextId = 2, draws = 2\<rparr>\<rparr>)
   \<and> total (statsActive_index 1000001
        \<lparr>timeLimit = Fin (- 940000),
         store = \<lparr>records = [legacyRecord,
                             \<lparr>rid = 1, originalUrl = ''http://n.example'', shortCode = ''code00'',
                               created = 1000000, expiry = None\<rparr>],
                  nextId = 2, draws = 1\<rparr>\<rparr>) = 0
   \<and> (\<exists>rs. urlsBatch_index exampleGen 1000000 (Some []) (JNumber 60000) (initial0 legacyWorld) =
         Inr (rs, \<lparr>timeLimit = Fin (- 940000), store = legacyWorld\<rparr>))"
proof -
  have a: "timeLimit (initial0 legacyWorld) = Fin 3600000" by (simp add: initial0_def)
  have b: "shorten_index exampleGen 1000000 (Some ''http://n.example'') (JNumber 60000) (initial0 legacyWorld) =
       Inr (\<lparr>res_shortCode = ''code00'', res_message = msgCreated\<rparr>,
            \<lparr>timeLimit = Fin (- 940000),
             store = \<lparr>records = [legacyRecord,
                                 \<lparr>rid = 1, originalUrl = ''http://n.example'', shortCode = ''code00'',
                                   created = 1000000, expiry = None\<rparr>],
                      nextId = 2, draws = 1\<rparr>\<rparr>)"
    by (simp add: shorten_index_def initial0_def assignLimit_def getFullList_def
      nanoid_def pbCreate_def legacyWorld_def legacyRecord_def exampleGen_def Let_def)
  have c: "shorten_index exampleGen 1000001 (Some ''http://n.example'') JUndefined
        \<lparr>timeLimit = Fin (- 940000),
         store = \<lparr>records = [legacyRecord,
                             \<lparr>rid = 1, originalUrl = ''http://n.example'', shortCode = ''code00'',
                               created = 1000000, expiry = None\<rparr>],
                  nextId = 2, draws = 1\<rparr>\<rparr> =
       Inr (\<lparr>res_shortCode = ''code01'', res_message = msgOlder0\<rparr>,
            \<lparr>timeLimit = Fin (- 940000),
             store = \<lparr>records = [legacyRecord,
                                 \<lparr>rid = 1, originalUrl = ''http://n.example'', shortCode = ''code01'',
                                   created = 1000000, expiry = None\<rparr>],
                      nextId = 2, draws = 2\<rparr>\<rparr>)"
    by (simp add: shorten_index_def older0_def assignLimit_def getFullList_def
      nanoid_def pbUpdate_def applyPatch_def legacyRecord_def exampleGen_def Let_def)
  have d: "total (statsActive_index 1000001
        \<lparr>timeLimit = Fin (- 940000),
         store = \<lparr>records = [legacyRecord,
                             \<lparr>rid = 1, originalUrl = ''http://n.example'', shortCode = ''code00'',
                               created = 1000000, expiry = None\<rparr>],
                  nextId = 2, draws = 1\<rparr>\<rparr>) = 0"
    by (simp add: statsActive_index_def isActive_index_def getFullList_def legacyRecord_def Let_def)
  have e: "\<exists>rs. urlsBatch_index exampleGen 1000000 (Some []) (JNumber 60000) (initial0 legacyWorld) =
         Inr (rs, \<lparr>timeLimit = Fin (- 940000), store = legacyWorld\<rparr>)"
    by (simp add: urlsBatch_index_def initial0_def assignLimit_def)
  show ?thesis using a b c d e by blast
qed

text \<open>
  C4. A stored expiry that is absent or without digits falls back to the default through
  \<open>||\<close>. The expiry of a request does not: \<open>expiry ? parseInt(expiry) : DEFAULT_TIME_LIMIT\<close>
  yields \<open>NaN\<close> for the text \<open>"abc"\<close>. The request does not fail, but with \<open>NaN\<close> the
  test for expiry is false at every instant, and the text \<open>"NaN"\<close> is written to the
  \<open>expiry\<close> field, by \<open>/shorten\<close> and by \<open>/urls/batch\<close>.
\<close>

theorem unparsable_caller_expiry_gives_NaN:
  "effectiveExpiryOf (JString ''abc'') = NaN
   \<and> shorten exampleGen 1000 (Some ''http://a.example'') (JString ''abc'') exampleWorld =
       Inr (\<lparr>res_shortCode = ''abc123'', res_message = msgActive\<rparr>,
            \<lparr>records = [\<lparr>rid = 0, originalUrl = ''http://a.example'', shortCode = ''abc123'',
                          created = 1000, expiry = Some ''NaN''\<rparr>],
             nextId = 1, draws = 0\<rparr>)
   \<and> shorten exampleGen 4000000 (Some ''http://a.example'') (JString ''abc'') exampleWorld =
       Inr (\<lparr>res_shortCode = ''abc123'', res_message = msgActive\<rparr>,
            \<lparr>records = [\<lparr>rid = 0, originalUrl = ''http://a.example'', shortCode = ''abc123'',
                          created = 4000000, expiry = Some ''NaN''\<rparr>],
             nextId = 1, draws = 0\<rparr>)
   \<and> urlsBatch exampleGen 1000 (Some [''http://n.example'']) (JString ''abc'') exampleWorld =
       Inr ([\<lparr>b_link = ''http://n.example'', b_shortCode = ''code00'', b_action = ''created''\<rparr>],
            \<lparr>records = [exampleRecord,
                        \<lparr>rid = 1, originalUrl = ''http://n.example'', shortCode = ''code00'',
                          created = 1000, expiry = Some ''NaN''\<rparr>],
             nextId = 2, draws = 1\<rparr>)
   \<and> expiryDuration \<lparr>rid = 0, originalUrl = ''http://a.example'', shortCode = ''abc123'',
                       created = 1000, expiry = Some ''NaN''\<rparr> = Fin 3600000
   \<and> expiryDuration legacyRecord = Fin 3600000"
proof -
  have e: "effectiveExpiryOf (JString ''abc'') = NaN"
    by (simp add: effectiveExpiryOf_def parse_defs)
  have s1: "shorten exampleGen 1000 (Some ''http://a.example'') (JString ''abc'') exampleWorld =
       Inr (\<lparr>res_shortCode = ''abc123'', res_message = msgActive\<rparr>,
            \<lparr>records = [\<lparr>rid = 0, originalUrl = ''http://a.example'', shortCode = ''abc123'',
                          created = 1000, expiry = Some ''NaN''\<rparr>],
             nextId = 1, draws = 0\<rparr>)"
    by (simp add: shorten_def e shortenExpired_def getFullList_def pbUpdate_def applyPatch_def
        exampleWorld_def exampleRecord_def)
  have s2: "shorten exampleGen 4000000 (Some ''http://a.example'') (JString ''abc'') exampleWorld =
       Inr (\<lparr>res_shortCode = ''abc123'', res_message = msgActive\<rparr>,
            \<lparr>records = [\<lparr>rid = 0, originalUrl = ''http://a.example'', shortCode = ''abc123'',
                          created = 4000000, expiry = Some ''NaN''\<rparr>],
             nextId = 1, draws = 0\<rparr>)"
    by (simp add: shorten_def e shortenExpired_def getFullList_def pbUpdate_def applyPatch_def
        exampleWorld_def exampleRecord_def)
  have m: "existingMapOf (batchExisting [''http://n.example''] exampleWorld) ''http://n.example'' = None"
    by (simp add: existingMapOf_def batchExisting_def getFullList_def lookupExisting_def
        inheritedName_def inheritedNames_def Let_def exampleWorld_def exampleRecord_def)
  have b: "urlsBatch exampleGen 1000 (Some [''http://n.example'']) (JString ''abc'') exampleWorld =
       Inr ([\<lparr>b_link = ''http://n.example'', b_shortCode = ''code00'', b_action = ''created''\<rparr>],
            \<lparr>records = [exampleRecord,
                        \<lparr>rid = 1, originalUrl = ''http://n.example'', shortCode = ''code00'',
                          created = 1000, expiry = Some ''NaN''\<rparr>],
             nextId = 2, draws = 1\<rparr>)"
    using m by (simp add: urlsBatch_def batchStep_create e exampleWorld_def exampleGen_def
        inheritedName_def inheritedNames_def)
  have d1: "expiryDuration \<lparr>rid = 0, originalUrl = ''http://a.example'', shortCode = ''abc123'',
                       created = 1000, expiry = Some ''NaN''\<rparr> = Fin 3600000"
    by (simp add: expiryDuration_def jsOr_def DEFAULT_TIME_LIMIT_def parse_defs)
  have d2: "expiryDuration legacyRecord = Fin 3600000"
    by (simp add: expiryDuration_def jsOr_def DEFAULT_TIME_LIMIT_def parse_defs legacyRecord_def)
  show ?thesis using e s1 s2 b d1 d2 by blast
qed

text \<open>
  C5. At the instant \<open>now = created + expiry\<close> the tests of \<open>/shorten\<close> and of the batch
  loop (\<open>now > expiryTime\<close>) do not take the row for expired, and \<open>/shorten\<close> refreshes it;
  the filter of \<open>/stats/active\<close> (\<open>created + expiry > now\<close>) does not count the row as
  active.
\<close>

theorem boundary_active_for_upsert_not_for_stats:
  "created exampleRecord + 1000 = 1000
   \<and> effectiveExpiryOf (JNumber 1000) = Fin 1000
   \<and> expiryDuration exampleRecord = Fin 1000
   \<and> \<not> shortenExpired 1000 (effectiveExpiryOf (JNumber 1000)) exampleRecord
   \<and> shorten exampleGen 1000 (Some ''http://a.example'') (JNumber 1000) exampleWorld =
       Inr (\<lparr>res_shortCode = ''abc123'', res_message = msgActive\<rparr>,
            \<lparr>records = [\<lparr>rid = 0, originalUrl = ''http://a.example'', shortCode = ''abc123'',
                          created = 1000, expiry = Some ''1000''\<rparr>],
             nextId = 1, draws = 0\<rparr>)
   \<and> \<not> batchExpired 1000 exampleRecord
   \<and> \<not> isActive 1000 exampleRecord
   \<and> statsActive 1000 exampleWorld = \<lparr>total = 0, groups = [], activeRecords = []\<rparr>"
proof -
  have e: "effectiveExpiryOf (JNumber 1000) = Fin 1000"
    by (simp add: effectiveExpiryOf_def parse_defs show_defs)
  have d: "expiryDuration exampleRecord = Fin 1000"
    by (simp add: expiryDuration_def jsOr_def exampleRecord_def parse_defs)
  have x: "\<not> shortenExpired 1000 (effectiveExpiryOf (JNumber 1000)) exampleRecord"
    by (simp add: e shortenExpired_def exampleRecord_def)
  have s: "shorten exampleGen 1000 (Some ''http://a.example'') (JNumber 1000) exampleWorld =
       Inr (\<lparr>res_shortCode = ''abc123'', res_message = msgActive\<rparr>,
            \<lparr>records = [\<lparr>rid = 0, originalUrl = ''http://a.example'', shortCode = ''abc123'',
                          created = 1000, expiry = Some ''1000''\<rparr>],
             nextId = 1, draws = 0\<rparr>)"
    using x
    by (simp add: shorten_def e getFullList_def pbUpdate_def applyPatch_def
        exampleWorld_def exampleRecord_def show_defs)
  have b: "\<not> batchExpired 1000 exampleRecord"
    by (simp add: batchExpired_def d) (simp add: exampleRecord_def)
  have a: "\<not> isActive 1000 exampleRecord"
    by (simp add: isActive_def d) (simp add: exampleRecord_def)
  have st: "statsActive 1000 exampleWorld = \<lparr>total = 0, groups = [], activeRecords = []\<rparr>"
    using a by (simp add: statsActive_def getFullList_def exampleWorld_def groupByDate_def Let_def)
  have c: "created exampleRecord + 1000 = 1000" by (simp add: exampleRecord_def)
  show ?thesis using c e d x s b a st by blast
qed

text \<open>
  C6 (as amended). Let the store list a row for the URL, the first such row being \<open>r\<close>.
  In the revised edition, when \<open>r\<close> is expired under the effective expiry of the request,
  \<open>/shorten\<close> draws a new code, writes it and the text of the effective expiry to that row,
  and leaves \<open>created\<close> of the row as it was. In the earlier edition, when \<open>r\<close> is older
  than the time limit, \<open>/shorten\<close> draws a new code and writes only the code: \<open>created\<close>
  and \<open>expiry\<close> of the row stay as they were.
\<close>

theorem expired_record_is_rotated:
  assumes "distinct (map rid (records w))" and "l \<noteq> []"
    and "getFullList (\<lambda>x. originalUrl x = l) w = r # rest"
  shows "(shortenExpired now (effectiveExpiryOf ex) r \<longrightarrow>
            shorten g now (Some l) ex w =
              Inr (\<lparr>res_shortCode = g (draws w), res_message = msgExpired\<rparr>,
                   w\<lparr>records :=
                       map (\<lambda>x. if rid x = rid r
                                then x\<lparr>shortCode := g (draws w),
                                       expiry := Some (numToString (effectiveExpiryOf ex))\<rparr>
                                else x) (records w),
                     draws := Suc (draws w)\<rparr>))
       \<and> (older0 now (assignLimit now ex lim) r \<longrightarrow>
            shorten_index g now (Some l) ex \<lparr>timeLimit = lim, store = w\<rparr> =
              Inr (\<lparr>res_shortCode = g (draws w), res_message = msgOlder0\<rparr>,
                   \<lparr>timeLimit = assignLimit now ex lim,
                    store = w\<lparr>records :=
                                map (\<lambda>x. if rid x = rid r then x\<lparr>shortCode := g (draws w)\<rparr> else x)
                                  (records w),
                              draws := Suc (draws w)\<rparr>\<rparr>))"
  using shorten_rotate [OF assms, of now ex g] shorten_index_older [OF assms, of now ex lim g]
  by blast

theorem expired_record_is_rotated_witness:
  "shorten exampleGen 4000000 (Some ''http://a.example'') JUndefined exampleWorld =
     Inr (\<lparr>res_shortCode = ''code00'', res_message = msgExpired\<rparr>,
          \<lparr>records = [\<lparr>rid = 0, originalUrl = ''http://a.example'', shortCode = ''code00'',
                        created = 0, expiry = Some ''3600000''\<rparr>],
           nextId = 1, draws = 1\<rparr>)
   \<and> shorten_index exampleGen 4000000 (Some ''http://a.example'') JUndefined
        \<lparr>timeLimit = Fin 3600000, store = exampleWorld\<rparr> =
     Inr (\<lparr>res_shortCode = ''code00'', res_message = msgOlder0\<rparr>,
          \<lparr>timeLimit = Fin 3600000,
           store = \<lparr>records = [\<lparr>rid = 0, originalUrl = ''http://a.example'', shortCode = ''code00'',
                                 created = 0, expiry = Some ''1000''\<rparr>],
                    nextId = 1, draws = 1\<rparr>\<rparr>)"
proof -
  have a: "distinct (map rid (records exampleWorld))" by (simp add: exampleWorld_def)
  have b: "''http://a.example'' \<noteq> []" by simp
  have c: "getFullList (\<lambda>x. originalUrl x = ''http://a.example'') exampleWorld = exampleRecord # []"
    by (simp add: getFullList_def exampleWorld_def exampleRecord_def)
  have e: "effectiveExpiryOf JUndefined = Fin 3600000"
    by (simp add: effectiveExpiryOf_def DEFAULT_TIME_LIMIT_def)
  have d: "shortenExpired 4000000 (effectiveExpiryOf JUndefined) exampleRecord"
    by (simp add: e shortenExpired_def exampleRecord_def)
  have f: "older0 4000000 (assignLimit 4000000 JUndefined (Fin 3600000)) exampleRecord"
    by (simp add: older0_def assignLimit_def exampleRecord_def)
  show ?thesis
    using expired_record_is_rotated [OF a b c, of 4000000 JUndefined exampleGen "Fin 3600000"] d f
    by (simp add: e assignLimit_def exampleWorld_def exampleRecord_def exampleGen_def show_defs)
qed

text \<open>
  C6 as stated fails on the earlier edition: the rotation of a row that is older than the
  time limit of one hour leaves the row without an \<open>expiry\<close>; the effective expiry is not
  written.
\<close>

theorem earlier_edition_rotation_keeps_expiry:
  "older0 4000000 (Fin 3600000) legacyRecord
   \<and> shorten_index exampleGen 4000000 (Some ''http://a.example'') JUndefined (initial0 legacyWorld) =
       Inr (\<lparr>res_shortCode = ''code00'', res_message = msgOlder0\<rparr>,
            \<lparr>timeLimit = Fin 3600000,
             store = \<lparr>records = [\<lparr>rid = 0, originalUrl = ''http://a.example'', shortCode = ''code00'',
                                   created = 0, expiry = None\<rparr>],
                      nextId = 1, draws = 1\<rparr>\<rparr>)"
  by (simp add: older0_def shorten_index_def initial0_def assignLimit_def getFullList_def
      nanoid_def pbUpdate_def applyPatch_def legacyWorld_def legacyRecord_def exampleGen_def Let_def)

text \<open>
  C7. When the links of a batch request hold the same URL at two places, the store has
  no row for that URL, and no link is the name of an inherited object member, both entries are tagged \<open>created\<close>, and their short codes are the
  results of two different calls to \<open>nanoid\<close> made during this request: the map of existing
  rows is built before the loop and the loop never writes to it.
\<close>

theorem batch_duplicate_unseen_link:
  assumes unseen: "u \<notin> set (map originalUrl (records w))"
    and ij: "i < j" and j: "j < length ls"
    and ui: "ls ! i = u" and uj: "ls ! j = u"
    and plain: "\<forall>l\<in>set ls. \<not> inheritedName l"
  shows "\<exists>rs w' di dj.
           urlsBatch g now (Some ls) ex w = Inr (rs, w')
         \<and> b_link (rs ! i) = u \<and> b_action (rs ! i) = ''created'' \<and> b_shortCode (rs ! i) = g di
         \<and> b_link (rs ! j) = u \<and> b_action (rs ! j) = ''created'' \<and> b_shortCode (rs ! j) = g dj
         \<and> draws w \<le> di \<and> di < dj \<and> dj < draws w'"
proof -
  let ?m = "existingMapOf (batchExisting ls w)"
  have none: "?m u = None" using existingMapOf_unseen [OF unseen] .
  have dn: "drawsNow ?m now u" using none by (simp add: drawsNow_def)
  from batchLoop_total [OF covers_initial [of ls w] plain, where g = g and now = now
      and eff = "effectiveExpiryOf ex"]
  obtain rs w' where run: "batchLoop g ?m now (effectiveExpiryOf ex) ls w = Inr (rs, w')"
    and links: "map b_link rs = ls"
    and dr: "draws w' = draws w + drawsOf ?m now ls"
    and ent: "\<forall>k<length ls.
                 b_action (rs ! k) = (if ?m (ls ! k) = None then ''created'' else ''updated'')
               \<and> (drawsNow ?m now (ls ! k) \<longrightarrow>
                     b_shortCode (rs ! k) = g (draws w + drawsOf ?m now (take k ls)))"
    by blast
  have i: "i < length ls" using ij j by simp
  let ?di = "draws w + drawsOf ?m now (take i ls)"
  let ?dj = "draws w + drawsOf ?m now (take j ls)"
  have len: "length rs = length ls" using links by (metis length_map)
  have li: "b_link (rs ! i) = u" using links i len ui by (metis nth_map)
  have lj: "b_link (rs ! j) = u" using links j len uj by (metis nth_map)
  have ai: "b_action (rs ! i) = ''created''" and ci: "b_shortCode (rs ! i) = g ?di"
    using ent i ui none dn by auto
  have aj: "b_action (rs ! j) = ''created''" and cj: "b_shortCode (rs ! j) = g ?dj"
    using ent j uj none dn by auto
  have "drawsOf ?m now (take (Suc i) ls) = drawsOf ?m now (take i ls) + 1"
    using drawsOf_take_Suc [OF i, of ?m now] ui dn by simp
  moreover have "drawsOf ?m now (take (Suc i) ls) \<le> drawsOf ?m now (take j ls)"
    using drawsOf_take_mono [of "Suc i" j ?m now ls] ij by simp
  ultimately have lt: "?di < ?dj" by simp
  have "drawsOf ?m now (take (Suc j) ls) = drawsOf ?m now (take j ls) + 1"
    using drawsOf_take_Suc [OF j, of ?m now] uj dn by simp
  moreover have "drawsOf ?m now (take (Suc j) ls) \<le> drawsOf ?m now ls"
    using drawsOf_take_le [of ?m now "Suc j" ls] .
  ultimately have up: "?dj < draws w'" using dr by simp
  have res: "urlsBatch g now (Some ls) ex w = Inr (rs, w')"
    using run by (simp add: urlsBatch_def)
  have lo: "draws w \<le> ?di" by simp
  show ?thesis
    by (intro exI [of _ rs] exI [of _ w'] exI [of _ ?di] exI [of _ ?dj] conjI
        res li ai ci lj aj cj lo lt up)
qed

theorem batch_duplicate_unseen_link_witness:
  "urlsBatch exampleGen 5000 (Some [''http://n.example'', ''http://n.example'']) JUndefined exampleWorld =
     Inr ([\<lparr>b_link = ''http://n.example'', b_shortCode = ''code00'', b_action = ''created''\<rparr>,
           \<lparr>b_link = ''http://n.example'', b_shortCode = ''code01'', b_action = ''created''\<rparr>],
          \<lparr>records = [exampleRecord,
                      \<lparr>rid = 1, originalUrl = ''http://n.example'', shortCode = ''code00'',
                        created = 5000, expiry = Some ''3600000''\<rparr>,
                      \<lparr>rid = 2, originalUrl = ''http://n.example'', shortCode = ''code01'',
                        created = 5000, expiry = Some ''3600000''\<rparr>],
           nextId = 3, draws = 2\<rparr>)
   \<and> (\<exists>rs w' di dj.
         urlsBatch exampleGen 5000 (Some [''http://n.example'', ''http://n.example'']) JUndefined exampleWorld
           = Inr (rs, w')
       \<and> b_link (rs ! 0) = ''http://n.example'' \<and> b_action (rs ! 0) = ''created''
       \<and> b_shortCode (rs ! 0) = exampleGen di
       \<and> b_link (rs ! 1) = ''http://n.example'' \<and> b_action (rs ! 1) = ''created''
       \<and> b_shortCode (rs ! 1) = exampleGen dj
       \<and> draws exampleWorld \<le> di \<and> di < dj \<and> dj < draws w')"
proof -
  have m: "existingMapOf (batchExisting [''http://n.example'', ''http://n.example''] exampleWorld)
             ''http://n.example'' = None"
    by (simp add: existingMapOf_def batchExisting_def getFullList_def lookupExisting_def
        inheritedName_def inheritedNames_def Let_def exampleWorld_def exampleRecord_def)
  have ev: "urlsBatch exampleGen 5000 (Some [''http://n.example'', ''http://n.example'']) JUndefined exampleWorld =
     Inr ([\<lparr>b_link = ''http://n.example'', b_shortCode = ''code00'', b_action = ''created''\<rparr>,
           \<lparr>b_link = ''http://n.example'', b_shortCode = ''code01'', b_action = ''created''\<rparr>],
          \<lparr>records = [exampleRecord,
                      \<lparr>rid = 1, originalUrl = ''http://n.example'', shortCode = ''code00'',
                        created = 5000, expiry = Some ''3600000''\<rparr>,
                      \<lparr>rid = 2, originalUrl = ''http://n.example'', shortCode = ''code01'',
                        created = 5000, expiry = Some ''3600000''\<rparr>],
           nextId = 3, draws = 2\<rparr>)"
    using m
    by (simp add: urlsBatch_def batchStep_create effectiveExpiryOf_def DEFAULT_TIME_LIMIT_def
        exampleWorld_def exampleGen_def show_defs inheritedName_def inheritedNames_def)
  have un: "''http://n.example'' \<notin> set (map originalUrl (records exampleWorld))"
    by (simp add: exampleWorld_def exampleRecord_def)
  have pl: "\<forall>l\<in>set [''http://n.example'', ''http://n.example'']. \<not> inheritedName l"
    by (simp add: inheritedName_def inheritedNames_def)
  show ?thesis
    using ev batch_duplicate_unseen_link [OF un _ _ _ _ pl, of 0 1 exampleGen 5000 JUndefined]
    by simp
qed

text \<open>
  C8. For a batch request none of whose links is the name of an inherited object member,
  the handler answers with one entry per link, in the order of the links and with
  duplicates kept, and entry \<open>i\<close> is the outcome for link \<open>i\<close>: it carries that link; it is
  tagged \<open>created\<close> with a newly drawn code when the snapshot map has no row for the link;
  it is tagged \<open>updated\<close> with a newly drawn code when the row of the link is expired, and
  with the code of that row otherwise (row ids being distinct). The newly drawn code of
  entry \<open>i\<close> is the result of the call to \<open>nanoid\<close> whose number is the number of calls
  made before the request plus the number of earlier links that draw one. This holds
  for every state of the store, hence for every order in which the store lists its rows.
\<close>

theorem batch_results_follow_links:
  assumes plain: "\<forall>l\<in>set ls. \<not> inheritedName l"
  shows "\<exists>rs w'.
           urlsBatch g now (Some ls) ex w = Inr (rs, w')
         \<and> map b_link rs = ls
         \<and> (\<forall>i<length ls.
               (case existingMapOf (batchExisting ls w) (ls ! i) of
                  None \<Rightarrow>
                    b_action (rs ! i) = ''created''
                  \<and> b_shortCode (rs ! i) =
                      g (draws w + drawsOf (existingMapOf (batchExisting ls w)) now (take i ls))
                | Some r \<Rightarrow>
                    b_action (rs ! i) = ''updated''
                  \<and> (if batchExpired now r
                     then b_shortCode (rs ! i) =
                            g (draws w + drawsOf (existingMapOf (batchExisting ls w)) now (take i ls))
                     else distinct (map rid (records w)) \<longrightarrow> b_shortCode (rs ! i) = shortCode r)))"
proof -
  let ?m = "existingMapOf (batchExisting ls w)"
  from batchLoop_total [OF covers_initial [of ls w] plain, where g = g and now = now
      and eff = "effectiveExpiryOf ex"]
  obtain rs w' where run: "batchLoop g ?m now (effectiveExpiryOf ex) ls w = Inr (rs, w')"
    and links: "map b_link rs = ls"
    and ent: "\<forall>k<length ls.
                 b_action (rs ! k) = (if ?m (ls ! k) = None then ''created'' else ''updated'')
               \<and> (drawsNow ?m now (ls ! k) \<longrightarrow>
                     b_shortCode (rs ! k) = g (draws w + drawsOf ?m now (take k ls)))"
    by blast
  have res: "urlsBatch g now (Some ls) ex w = Inr (rs, w')"
    using run by (simp add: urlsBatch_def)
  have each: "\<forall>i<length ls.
               (case ?m (ls ! i) of
                  None \<Rightarrow>
                    b_action (rs ! i) = ''created''
                  \<and> b_shortCode (rs ! i) = g (draws w + drawsOf ?m now (take i ls))
                | Some r \<Rightarrow>
                    b_action (rs ! i) = ''updated''
                  \<and> (if batchExpired now r
                     then b_shortCode (rs ! i) = g (draws w + drawsOf ?m now (take i ls))
                     else distinct (map rid (records w)) \<longrightarrow> b_shortCode (rs ! i) = shortCode r))"
  proof (intro allI impI)
    fix i assume i: "i < length ls"
    show "case ?m (ls ! i) of
            None \<Rightarrow>
              b_action (rs ! i) = ''created''
            \<and> b_shortCode (rs ! i) = g (draws w + drawsOf ?m now (take i ls))
          | Some r \<Rightarrow>
              b_action (rs ! i) = ''updated''
            \<and> (if batchExpired now r
               then b_shortCode (rs ! i) = g (draws w + drawsOf ?m now (take i ls))
               else distinct (map rid (records w)) \<longrightarrow> b_shortCode (rs ! i) = shortCode r)"
    proof (cases "?m (ls ! i)")
      case None
      then show ?thesis using ent i by (simp add: drawsNow_def)
    next
      case (Some r)
      show ?thesis
      proof (cases "batchExpired now r")
        case True
        then show ?thesis using ent i Some by (simp add: drawsNow_def)
      next
        case False
        have "distinct (map rid (records w)) \<longrightarrow> b_shortCode (rs ! i) = shortCode r"
        proof
          assume ids: "distinct (map rid (records w))"
          show "b_shortCode (rs ! i) = shortCode r"
            using batchLoop_keeps [OF covers_initial keeps_initial [OF ids]
                inj_ids_initial [OF ids] run plain] i Some False
            by blast
        qed
        then show ?thesis using ent i Some False by simp
      qed
    qed
  qed
  show ?thesis by (intro exI [of _ rs] exI [of _ w'] conjI res links each)
qed

theorem batch_results_follow_links_witness:
  "urlsBatch exampleGen 1000 (Some [''http://n.example'', ''http://a.example'', ''http://n.example''])
     JUndefined exampleWorld =
     Inr ([\<lparr>b_link = ''http://n.example'', b_shortCode = ''code00'', b_action = ''created''\<rparr>,
           \<lparr>b_link = ''http://a.example'', b_shortCode = ''abc123'', b_action = ''updated''\<rparr>,
           \<lparr>b_link = ''http://n.example'', b_shortCode = ''code01'', b_action = ''created''\<rparr>],
          \<lparr>records = [\<lparr>rid = 0, originalUrl = ''http://a.example'', shortCode = ''abc123'',
                        created = 1000, expiry = Some ''3600000''\<rparr>,
                      \<lparr>rid = 1, originalUrl = ''http://n.example'', shortCode = ''code00'',
                        created = 1000, expiry = Some ''3600000''\<rparr>,
                      \<lparr>rid = 2, originalUrl = ''http://n.example'', shortCode = ''code01'',
                        created = 1000, expiry = Some ''3600000''\<rparr>],
           nextId = 3, draws = 2\<rparr>)
   \<and> (\<exists>rs w'.
         urlsBatch exampleGen 1000 (Some [''http://n.example'', ''http://a.example'', ''http://n.example''])
           JUndefined exampleWorld = Inr (rs, w')
       \<and> map b_link rs = [''http://n.example'', ''http://a.example'', ''http://n.example'']
       \<and> b_action (rs ! 1) = ''updated'' \<and> b_shortCode (rs ! 1) = ''abc123''
       \<and> b_action (rs ! 2) = ''created'' \<and> b_shortCode (rs ! 2) = ''code01'')"
proof -
  let ?ls = "[''http://n.example'', ''http://a.example'', ''http://n.example'']"
  let ?m = "existingMapOf (batchExisting ?ls exampleWorld)"
  have pl: "\<forall>l\<in>set ?ls. \<not> inheritedName l"
    by (simp add: inheritedName_def inheritedNames_def)
  have ma: "?m ''http://a.example'' = Some exampleRecord"
    by (simp add: existingMapOf_def batchExisting_def getFullList_def lookupExisting_def
        inheritedName_def inheritedNames_def Let_def exampleWorld_def exampleRecord_def)
  have mn: "?m ''http://n.example'' = None"
    by (simp add: existingMapOf_def batchExisting_def getFullList_def lookupExisting_def
        inheritedName_def inheritedNames_def Let_def exampleWorld_def exampleRecord_def)
  have ne: "\<not> batchExpired 1000 exampleRecord"
    by (simp add: batchExpired_def exampleRecord_def expiryDuration_def jsOr_def parse_defs)
  have ids: "distinct (map rid (records exampleWorld))"
    by (simp add: exampleWorld_def)
  have e: "effectiveExpiryOf JUndefined = Fin 3600000"
    by (simp add: effectiveExpiryOf_def DEFAULT_TIME_LIMIT_def)
  have ev: "urlsBatch exampleGen 1000 (Some ?ls) JUndefined exampleWorld =
     Inr ([\<lparr>b_link = ''http://n.example'', b_shortCode = ''code00'', b_action = ''created''\<rparr>,
           \<lparr>b_link = ''http://a.example'', b_shortCode = ''abc123'', b_action = ''updated''\<rparr>,
           \<lparr>b_link = ''http://n.example'', b_shortCode = ''code01'', b_action = ''created''\<rparr>],
          \<lparr>records = [\<lparr>rid = 0, originalUrl = ''http://a.example'', shortCode = ''abc123'',
                        created = 1000, expiry = Some ''3600000''\<rparr>,
                      \<lparr>rid = 1, originalUrl = ''http://n.example'', shortCode = ''code00'',
                        created = 1000, expiry = Some ''3600000''\<rparr>,
                      \<lparr>rid = 2, originalUrl = ''http://n.example'', shortCode = ''code01'',
                        created = 1000, expiry = Some ''3600000''\<rparr>],
           nextId = 3, draws = 2\<rparr>)"
    using ma mn ne
    by (simp add: urlsBatch_def batchStep_def lookupExisting_def inheritedName_def inheritedNames_def
        e nanoid_def pbCreate_def pbUpdate_def applyPatch_def Let_def
        exampleWorld_def exampleRecord_def exampleGen_def show_defs)
  from batch_results_follow_links [OF pl, of exampleGen 1000 JUndefined exampleWorld]
  obtain rs w' where run: "urlsBatch exampleGen 1000 (Some ?ls) JUndefined exampleWorld = Inr (rs, w')"
    and links: "map b_link rs = ?ls"
    and each: "\<forall>i<length ?ls.
               (case ?m (?ls ! i) of
                  None \<Rightarrow>
                    b_action (rs ! i) = ''created''
                  \<and> b_shortCode (rs ! i) = exampleGen (draws exampleWorld + drawsOf ?m 1000 (take i ?ls))
                | Some r \<Rightarrow>
                    b_action (rs ! i) = ''updated''
                  \<and> (if batchExpired 1000 r
                     then b_shortCode (rs ! i) =
                            exampleGen (draws exampleWorld + drawsOf ?m 1000 (take i ?ls))
                     else distinct (map rid (records exampleWorld)) \<longrightarrow>
                            b_shortCode (rs ! i) = shortCode r))"
    by (elim exE conjE) (rule that, assumption+)
  have e1: "b_action (rs ! 1) = ''updated'' \<and> b_shortCode (rs ! 1) = ''abc123''"
    using each [rule_format, of 1] ma ne ids by (simp add: exampleRecord_def)
  have d2: "drawsOf ?m 1000 (take 2 ?ls) = 1"
    using ma mn ne by (simp add: drawsOf_def drawsNow_def)
  have e2: "b_action (rs ! 2) = ''created'' \<and> b_shortCode (rs ! 2) = ''code01''"
    using each [rule_format, of 2] mn d2 by (simp add: exampleWorld_def exampleGen_def)
  have ex: "\<exists>rs w'.
         urlsBatch exampleGen 1000 (Some ?ls) JUndefined exampleWorld = Inr (rs, w')
       \<and> map b_link rs = ?ls
       \<and> b_action (rs ! 1) = ''updated'' \<and> b_shortCode (rs ! 1) = ''abc123''
       \<and> b_action (rs ! 2) = ''created'' \<and> b_shortCode (rs ! 2) = ''code01''"
    by (intro exI [of _ rs] exI [of _ w'] conjI run links conjunct1 [OF e1] conjunct2 [OF e1]
        conjunct1 [OF e2] conjunct2 [OF e2])
  show ?thesis by (rule conjI [OF ev ex])
qed

text \<open>
  C9. The report of \<open>/stats/active\<close> lists exactly the rows that pass the activity filter,
  in one group per UTC calendar date of \<open>created\<close>: the dates of the groups are distinct
  and are the dates of the active rows, each count is the number of active rows with that
  date, and \<open>total\<close> is both the number of active rows and the sum of the counts.
\<close>

theorem stats_groups_by_date:
  "activeRecords (statsActive now w) = filter (isActive now) (records w)
   \<and> total (statsActive now w) = length (filter (isActive now) (records w))
   \<and> distinct (map fst (groups (statsActive now w)))
   \<and> set (map fst (groups (statsActive now w)))
       = (\<lambda>r. isoDate (created r)) ` set (filter (isActive now) (records w))
   \<and> (\<forall>(d, c) \<in> set (groups (statsActive now w)).
         c = length (filter (\<lambda>r. isoDate (created r) = d) (filter (isActive now) (records w))))
   \<and> total (statsActive now w) = sum_list (map snd (groups (statsActive now w)))"
proof -
  have s: "statsActive now w =
             \<lparr>total = length (filter (isActive now) (records w)),
              groups = groupByDate (filter (isActive now) (records w)),
              activeRecords = filter (isActive now) (records w)\<rparr>"
    by (simp add: statsActive_def getFullList_def Let_def)
  show ?thesis
    unfolding s using groupByDate_props [of "filter (isActive now) (records w)"] by simp
qed

theorem stats_groups_by_date_witness:
  "groups (statsActive 86500000 statsWorld) = [(''1970-01-01'', 2), (''1970-01-02'', 1)]
   \<and> total (statsActive 86500000 statsWorld) = 3
   \<and> length (filter (\<lambda>r. isoDate (created r) = ''1970-01-01'')
                (filter (isActive 86500000) (records statsWorld))) = 2
   \<and> length (filter (\<lambda>r. isoDate (created r) = ''1970-01-02'')
                (filter (isActive 86500000) (records statsWorld))) = 1"
  using stats_groups_by_date [of 86500000 statsWorld] statsWorld_groups
  by simp

text \<open>
  C10. A stored expiry of \<open>"0"\<close> parses to 0, which \<open>||\<close> replaces by the default of one
  hour: the filter of \<open>/stats/active\<close> counts the row as active until one hour after
  \<open>created\<close>, and the batch loop takes it for expired only after that hour.
\<close>

theorem zero_expiry_judged_by_default:
  assumes "expiry r = Some ''0''"
  shows "expiryDuration r = Fin 3600000
       \<and> isActive now r = (now < created r + 3600000)
       \<and> batchExpired now r = (created r + 3600000 < now)"
  using expiryDuration_zero [OF assms] by (simp add: isActive_def batchExpired_def)

theorem zero_expiry_judged_by_default_witness:
  "expiry zeroRecord = Some ''0''
   \<and> isActive 3599999 zeroRecord \<and> \<not> batchExpired 3600000 zeroRecord
   \<and> total (statsActive 3599999 zeroWorld) = 1
   \<and> (\<exists>w'. urlsBatch exampleGen 3600000 (Some [''http://z.example'']) JUndefined zeroWorld =
         Inr ([\<lparr>b_link = ''http://z.example'', b_shortCode = ''zzz000'', b_action = ''updated''\<rparr>], w'))"
proof -
  have e: "expiry zeroRecord = Some ''0''" by (simp add: zeroRecord_def)
  have a: "isActive 3599999 zeroRecord" and b: "\<not> batchExpired 3600000 zeroRecord"
    using zero_expiry_judged_by_default [OF e, of 3599999]
      zero_expiry_judged_by_default [OF e, of 3600000]
    by (simp_all add: zeroRecord_def)
  have c: "total (statsActive 3599999 zeroWorld) = 1"
    using a by (simp add: statsActive_def getFullList_def zeroWorld_def Let_def)
  have m: "existingMapOf (batchExisting [''http://z.example''] zeroWorld) ''http://z.example'' = Some zeroRecord"
    by (simp add: existingMapOf_def batchExisting_def getFullList_def lookupExisting_def
        inheritedName_def inheritedNames_def Let_def zeroWorld_def zeroRecord_def)
  have d: "\<exists>w'. urlsBatch exampleGen 3600000 (Some [''http://z.example'']) JUndefined zeroWorld =
         Inr ([\<lparr>b_link = ''http://z.example'', b_shortCode = ''zzz000'', b_action = ''updated''\<rparr>], w')"
    using b m
    by (simp add: urlsBatch_def batchStep_def lookupExisting_def pbUpdate_def applyPatch_def
        zeroWorld_def zeroRecord_def)
  show ?thesis using e a b c d by blast
qed

end
